theory Spec2Isabelle
  imports Complex_Main "HOL-Library.Multiset"
begin

section \<open>Python values used by the services\<close>

text \<open>
  A Python \<open>str\<close> is a sequence of Unicode code points; it is modelled as a list of
  natural numbers, one per code point, so that \<open>len\<close>, indexing and \<open>strip\<close> count what
  Python counts. \<open>ascii\<close> reads an ASCII literal as such a string.
\<close>

type_synonym pystr = "nat list"

definition ascii :: "string \<Rightarrow> pystr" where
  "ascii s = map of_char s"

text \<open>
  The exceptions the modelled code can raise. Django's \<open>ValidationError\<close> carries its
  message; \<open>ValueError\<close> is raised by \<open>date(...)\<close>, \<open>date.replace\<close> and
  \<open>date.fromisoformat\<close>, \<open>InvalidOperation\<close> by \<open>Decimal(...)\<close> and by the
  quantization of an amount that needs more digits than its column has,
  \<open>OverflowError\<close> by date arithmetic that leaves the range of \<open>date\<close>, and
  \<open>MultipleObjectsReturned\<close> by \<open>get_or_create\<close>. \<open>NonFiniteDecimal\<close> stands for the
  exception that saving a \<open>NaN\<close> or an infinity to a \<open>DecimalField\<close> raises.
\<close>

datatype error =
    ValidationError pystr
  | ValueError
  | InvalidOperation
  | OverflowError
  | MultipleObjectsReturned
  | NonFiniteDecimal

section \<open>Calendar dates (datetime.date)\<close>

record date =
  dyear :: int
  dmonth :: int
  dday :: int

definition is_leap :: "int \<Rightarrow> bool" where
  "is_leap y \<longleftrightarrow> y mod 4 = 0 \<and> (y mod 100 \<noteq> 0 \<or> y mod 400 = 0)"

definition days_in_month :: "int \<Rightarrow> int \<Rightarrow> int" where
  "days_in_month y m =
     (if m = 2 then (if is_leap y then 29 else 28)
      else if m = 4 \<or> m = 6 \<or> m = 9 \<or> m = 11 then 30 else 31)"

text \<open>\<open>date(y, m, d)\<close>: years 1 to 9999 (MINYEAR, MAXYEAR), otherwise \<open>ValueError\<close>.\<close>

definition date_new :: "int \<Rightarrow> int \<Rightarrow> int \<Rightarrow> error + date" where
  "date_new y m d =
     (if 1 \<le> y \<and> y \<le> 9999 \<and> 1 \<le> m \<and> m \<le> 12 \<and> 1 \<le> d \<and> d \<le> days_in_month y m
      then Inr \<lparr>dyear = y, dmonth = m, dday = d\<rparr>
      else Inl ValueError)"

definition valid_date :: "date \<Rightarrow> bool" where
  "valid_date d \<longleftrightarrow> date_new (dyear d) (dmonth d) (dday d) = Inr d"

text \<open>
  \<open>date.toordinal()\<close>: the proleptic Gregorian ordinal, 1 for 0001-01-01, computed as
  CPython does from the days before the year and the days before the month.
\<close>

definition days_before_year :: "int \<Rightarrow> int" where
  "days_before_year y = (let y1 = y - 1 in y1 * 365 + y1 div 4 - y1 div 100 + y1 div 400)"

definition days_before_month :: "int \<Rightarrow> int \<Rightarrow> int" where
  "days_before_month y m =
     [0, 31, 59, 90, 120, 151, 181, 212, 243, 273, 304, 334] ! nat (m - 1)
       + (if m > 2 \<and> is_leap y then 1 else 0)"

definition toordinal :: "date \<Rightarrow> int" where
  "toordinal d = days_before_year (dyear d) + days_before_month (dyear d) (dmonth d) + dday d"

text \<open>
  \<open>d - date.resolution\<close> (and \<open>d + timedelta(days=-1)\<close>): the calendar day before
  \<open>d\<close>; \<open>OverflowError\<close> when \<open>d\<close> is \<open>date.min\<close>.
\<close>

definition date_sub_resolution :: "date \<Rightarrow> error + date" where
  "date_sub_resolution d =
     (if dday d > 1 then Inr (d\<lparr>dday := dday d - 1\<rparr>)
      else if dmonth d > 1 then
        Inr \<lparr>dyear = dyear d, dmonth = dmonth d - 1,
             dday = days_in_month (dyear d) (dmonth d - 1)\<rparr>
      else if dyear d > 1 then Inr \<lparr>dyear = dyear d - 1, dmonth = 12, dday = 31\<rparr>
      else Inl OverflowError)"

text \<open>Comparison of dates, as \<open>date.__le__\<close> and SQL \<open>BETWEEN\<close> on a date column.\<close>

definition date_le :: "date \<Rightarrow> date \<Rightarrow> bool" where
  "date_le a b \<longleftrightarrow>
     dyear a < dyear b \<or>
     (dyear a = dyear b \<and> (dmonth a < dmonth b \<or> (dmonth a = dmonth b \<and> dday a \<le> dday b)))"

definition in_range :: "date \<Rightarrow> date \<Rightarrow> date \<Rightarrow> bool" where
  "in_range start_date end_date d \<longleftrightarrow> date_le start_date d \<and> date_le d end_date"

subsection \<open>The month range of the aggregation functions\<close>

text \<open>
  \<open>get_monthly_summary\<close> and \<open>get_expense_breakdown_by_category\<close> (services.py, lines
  27-32 and 65-70):
  \<^verbatim>\<open>
    start_date = date(year, month, 1)
    if month == 12: end_date = date(year + 1, 1, 1)
    else:           end_date = date(year, month + 1, 1)
    end_date -= date.resolution
  \<close>
\<close>

definition month_range :: "int \<Rightarrow> int \<Rightarrow> error + (date \<times> date)" where
  "month_range y m =
     (case date_new y m 1 of
        Inl e \<Rightarrow> Inl e
      | Inr start_date \<Rightarrow>
          (case (if m = 12 then date_new (y + 1) 1 1 else date_new y (m + 1) 1) of
             Inl e \<Rightarrow> Inl e
           | Inr end_date \<Rightarrow>
               (case date_sub_resolution end_date of
                  Inl e \<Rightarrow> Inl e
                | Inr end_date' \<Rightarrow> Inr (start_date, end_date'))))"

text \<open>
  \<open>get_budget_vs_actual\<close> (services.py, lines 128-129) uses dateutil instead:
  \<^verbatim>\<open>
    start_date = date(year, month, 1)
    end_date = start_date + relativedelta(months=1) - relativedelta(days=1)
  \<close>
  \<open>d + relativedelta(months=1)\<close> adds one to the month, carries into the year past
  December, clips the day to the length of the new month and rebuilds the date with
  \<open>date.replace\<close>; \<open>d - relativedelta(days=1)\<close> clips the day likewise and adds
  \<open>timedelta(days=-1)\<close>.
\<close>

definition date_replace :: "date \<Rightarrow> int \<Rightarrow> int \<Rightarrow> int \<Rightarrow> error + date" where
  "date_replace d y m dd = date_new y m dd"

definition add_relativedelta_month :: "date \<Rightarrow> error + date" where
  "add_relativedelta_month d =
     (let m = dmonth d + 1;
          y = (if m > 12 then dyear d + 1 else dyear d);
          m = (if m > 12 then m - 12 else m);
          dd = min (days_in_month y m) (dday d)
      in date_replace d y m dd)"

definition sub_relativedelta_day :: "date \<Rightarrow> error + date" where
  "sub_relativedelta_day d =
     (let dd = min (days_in_month (dyear d) (dmonth d)) (dday d) in
      case date_replace d (dyear d) (dmonth d) dd of
        Inl e \<Rightarrow> Inl e
      | Inr d' \<Rightarrow> date_sub_resolution d')"

definition month_range_relativedelta :: "int \<Rightarrow> int \<Rightarrow> error + (date \<times> date)" where
  "month_range_relativedelta y m =
     (case date_new y m 1 of
        Inl e \<Rightarrow> Inl e
      | Inr start_date \<Rightarrow>
          (case add_relativedelta_month start_date of
             Inl e \<Rightarrow> Inl e
           | Inr next_month \<Rightarrow>
               (case sub_relativedelta_day next_month of
                  Inl e \<Rightarrow> Inl e
                | Inr end_date \<Rightarrow> Inr (start_date, end_date))))"

text \<open>The first day of the month after month \<open>m\<close> of year \<open>y\<close>, as a calendar fact.\<close>

definition first_of_next_month :: "int \<Rightarrow> int \<Rightarrow> date" where
  "first_of_next_month y m =
     (if m = 12 then \<lparr>dyear = y + 1, dmonth = 1, dday = 1\<rparr>
      else \<lparr>dyear = y, dmonth = m + 1, dday = 1\<rparr>)"

section \<open>The data store\<close>

text \<open>
  The three models of models.py, one record per row, with the primary key Django adds
  (\<open>id\<close>) and foreign keys as the key of the row they point at. A user is the key of
  its row in Django's user table. Amounts are the values of a \<open>DecimalField\<close> column,
  modelled as exact rationals. The \<open>created_at\<close> timestamps are left out: no service reads them.
\<close>

datatype cat_type = INCOME | EXPENSE

record category =
  cid :: nat
  cname :: pystr
  ctype :: cat_type
  cuser :: nat

record transaction =
  tid :: nat
  tuser :: nat
  tamount :: rat
  tcategory :: nat
  tdescription :: pystr
  tdate :: date

record budget =
  bid :: nat
  buser :: nat
  bcategory :: nat
  bamount :: rat
  bmonth :: date

record store =
  categories :: "category list"
  transactions :: "transaction list"
  budgets :: "budget list"

text \<open>A new row gets a key above every key of its table (an auto-increment column).\<close>

definition fresh_id :: "nat list \<Rightarrow> nat" where
  "fresh_id ids = Suc (fold max ids 0)"

text \<open>Following a foreign key to the category row (\<open>t.category\<close>, \<open>budget.category\<close>).\<close>

definition category_of :: "store \<Rightarrow> nat \<Rightarrow> category option" where
  "category_of s i = find (\<lambda>c. cid c = i) (categories s)"

text \<open>The lookup \<open>category__type=ty\<close>: a join of the transaction with its category.\<close>

definition has_type :: "store \<Rightarrow> cat_type \<Rightarrow> transaction \<Rightarrow> bool" where
  "has_type s ty t =
     (case category_of s (tcategory t) of None \<Rightarrow> False | Some c \<Rightarrow> ctype c = ty)"

text \<open>
  \<open>qs.aggregate(total=Sum('amount'))['total']\<close> is \<open>None\<close> over no rows; \<open>x or 0\<close> turns
  \<open>None\<close> and a zero amount into \<open>0\<close>.
\<close>

definition aggregate_sum :: "transaction list \<Rightarrow> rat option" where
  "aggregate_sum ts = (if ts = [] then None else Some (sum_list (map tamount ts)))"

definition or_zero :: "rat option \<Rightarrow> rat" where
  "or_zero x = (case x of None \<Rightarrow> 0 | Some v \<Rightarrow> if v = 0 then 0 else v)"

section \<open>Aggregation service\<close>

record summary =
  income :: rat
  expense :: rat
  balance :: rat

text \<open>\<open>get_monthly_summary(user, year, month)\<close>, services.py lines 15-50.\<close>

definition get_monthly_summary :: "store \<Rightarrow> nat \<Rightarrow> int \<Rightarrow> int \<Rightarrow> error + summary" where
  "get_monthly_summary s user y m =
     (case month_range y m of
        Inl e \<Rightarrow> Inl e
      | Inr (start_date, end_date) \<Rightarrow>
          (let income_total = or_zero (aggregate_sum (filter
                 (\<lambda>t. tuser t = user \<and> has_type s INCOME t
                        \<and> in_range start_date end_date (tdate t)) (transactions s)));
               expense_total = or_zero (aggregate_sum (filter
                 (\<lambda>t. tuser t = user \<and> has_type s EXPENSE t
                        \<and> in_range start_date end_date (tdate t)) (transactions s)))
           in Inr \<lparr>income = income_total, expense = expense_total,
                   balance = income_total - expense_total\<rparr>))"

text \<open>
  \<open>get_expense_breakdown_by_category(user, year, month)\<close>, services.py lines 53-81: the
  expense transactions of the month grouped by category name, each group with the sum of
  its amounts, largest total first. The database leaves the order of equal totals open;
  the model keeps the order of first appearance.
\<close>

definition category_name_of :: "store \<Rightarrow> transaction \<Rightarrow> pystr" where
  "category_name_of s t =
     (case category_of s (tcategory t) of None \<Rightarrow> [] | Some c \<Rightarrow> cname c)"

definition get_expense_breakdown_by_category ::
  "store \<Rightarrow> nat \<Rightarrow> int \<Rightarrow> int \<Rightarrow> error + (pystr \<times> rat) list" where
  "get_expense_breakdown_by_category s user y m =
     (case month_range y m of
        Inl e \<Rightarrow> Inl e
      | Inr (start_date, end_date) \<Rightarrow>
          (let rows = filter
                 (\<lambda>t. tuser t = user \<and> has_type s EXPENSE t
                        \<and> in_range start_date end_date (tdate t)) (transactions s);
               names = remdups (map (category_name_of s) rows);
               groups = map (\<lambda>n. (n, sum_list (map tamount
                          (filter (\<lambda>t. category_name_of s t = n) rows)))) names
           in Inr (sort_key (\<lambda>g. - snd g) groups)))"

record budget_entry =
  category_name :: pystr
  budget_amount :: rat
  actual_amount :: rat
  difference :: rat
  is_over_budget :: bool

text \<open>
  \<open>get_budget_vs_actual(user, year, month)\<close>, services.py lines 110-154. The budgets are
  read with \<open>select_related('category')\<close>, a join with the category row; the actual
  amount sums the user's transactions of the budget's category in the range.
\<close>

definition budget_actual :: "store \<Rightarrow> nat \<Rightarrow> date \<Rightarrow> date \<Rightarrow> budget \<Rightarrow> rat" where
  "budget_actual s user start_date end_date b =
     or_zero (aggregate_sum (filter
       (\<lambda>t. tuser t = user \<and> tcategory t = bcategory b
              \<and> in_range start_date end_date (tdate t)) (transactions s)))"

definition budget_row :: "store \<Rightarrow> nat \<Rightarrow> date \<Rightarrow> date \<Rightarrow> budget \<Rightarrow> budget_entry option" where
  "budget_row s user start_date end_date b =
     (case category_of s (bcategory b) of
        None \<Rightarrow> None
      | Some c \<Rightarrow>
          (let actual = budget_actual s user start_date end_date b;
               diff = bamount b - actual
           in Some \<lparr>category_name = cname c, budget_amount = bamount b,
                     actual_amount = actual, difference = diff,
                     is_over_budget = (actual > bamount b)\<rparr>))"

definition get_budget_vs_actual ::
  "store \<Rightarrow> nat \<Rightarrow> int \<Rightarrow> int \<Rightarrow> error + budget_entry list" where
  "get_budget_vs_actual s user y m =
     (case month_range_relativedelta y m of
        Inl e \<Rightarrow> Inl e
      | Inr (start_date, end_date) \<Rightarrow>
          Inr (List.map_filter (budget_row s user start_date end_date)
                 (filter (\<lambda>b. buser b = user \<and> bmonth b = start_date) (budgets s))))"

text \<open>
  The calendar view of a month, used to state what the aggregates range over: the first
  and the last day of month \<open>m\<close> of year \<open>y\<close>.
\<close>

definition first_day :: "int \<Rightarrow> int \<Rightarrow> date" where
  "first_day y m = \<lparr>dyear = y, dmonth = m, dday = 1\<rparr>"

definition last_day :: "int \<Rightarrow> int \<Rightarrow> date" where
  "last_day y m = \<lparr>dyear = y, dmonth = m, dday = days_in_month y m\<rparr>"

definition in_month :: "int \<Rightarrow> int \<Rightarrow> date \<Rightarrow> bool" where
  "in_month y m d \<longleftrightarrow> date_le (first_day y m) d \<and> date_le d (last_day y m)"

text \<open>The user's transactions of one category type dated within a month.\<close>

definition month_transactions :: "store \<Rightarrow> nat \<Rightarrow> cat_type \<Rightarrow> int \<Rightarrow> int \<Rightarrow> transaction list" where
  "month_transactions s user ty y m =
     filter (\<lambda>t. tuser t = user \<and> has_type s ty t \<and> in_month y m (tdate t)) (transactions s)"

text \<open>The user's transactions of one category dated within a month.\<close>

definition category_month_transactions ::
  "store \<Rightarrow> nat \<Rightarrow> nat \<Rightarrow> int \<Rightarrow> int \<Rightarrow> transaction list" where
  "category_month_transactions s user c y m =
     filter (\<lambda>t. tuser t = user \<and> tcategory t = c \<and> in_month y m (tdate t)) (transactions s)"

text \<open>The budget rows of a user for a month: owner is the user, month is its first day.\<close>

definition month_budgets :: "store \<Rightarrow> nat \<Rightarrow> int \<Rightarrow> int \<Rightarrow> budget list" where
  "month_budgets s user y m =
     filter (\<lambda>b. buser b = user \<and> bmonth b = first_day y m) (budgets s)"

text \<open>A year and month whose range the date type can hold.\<close>

definition month_ok :: "int \<Rightarrow> int \<Rightarrow> bool" where
  "month_ok y m \<longleftrightarrow> 1 \<le> y \<and> y \<le> 9999 \<and> 1 \<le> m \<and> m \<le> 12 \<and> (y, m) \<noteq> (9999, 12)"

text \<open>
  A small store in the style of the fixtures of tests.py (\<open>ServicesTest.setUp\<close>,
  \<open>BudgetModelTest\<close>): user 1 with the expense categories U+0415 U+0434 U+0430 and
  U+0422 U+0440 U+0430 U+043D U+0441 U+043F U+043E U+0440 U+0442, the income category
  U+0417 U+041F, three transactions in October 2025 and two budgets for that month.
\<close>

definition example_store :: store where
  "example_store =
     \<lparr>categories =
        [\<lparr>cid = 1, cname = [1045, 1076, 1072], ctype = EXPENSE, cuser = 1\<rparr>,
         \<lparr>cid = 2, cname = [1047, 1055], ctype = INCOME, cuser = 1\<rparr>,
         \<lparr>cid = 3, cname = [1058, 1088, 1072, 1085, 1089, 1087, 1086, 1088, 1090],
           ctype = EXPENSE, cuser = 1\<rparr>],
      transactions =
        [\<lparr>tid = 1, tuser = 1, tamount = 50000, tcategory = 2, tdescription = [],
           tdate = \<lparr>dyear = 2025, dmonth = 10, dday = 5\<rparr>\<rparr>,
         \<lparr>tid = 2, tuser = 1, tamount = 1000, tcategory = 1, tdescription = [],
           tdate = \<lparr>dyear = 2025, dmonth = 10, dday = 10\<rparr>\<rparr>,
         \<lparr>tid = 3, tuser = 1, tamount = 500, tcategory = 1, tdescription = [],
           tdate = \<lparr>dyear = 2025, dmonth = 10, dday = 20\<rparr>\<rparr>],
      budgets =
        [\<lparr>bid = 1, buser = 1, bcategory = 3, bamount = 5000,
           bmonth = \<lparr>dyear = 2025, dmonth = 10, dday = 1\<rparr>\<rparr>,
         \<lparr>bid = 2, buser = 1, bcategory = 1, bamount = 1200,
           bmonth = \<lparr>dyear = 2025, dmonth = 10, dday = 1\<rparr>\<rparr>]\<rparr>"

text \<open>
  The entry the budget comparison is specified to hold for a budget row: the name of the
  budget's category, the budget amount, the total of the user's transactions of that
  category in the month, budget minus actual, and whether actual exceeds the budget.
\<close>

definition budget_category_name :: "store \<Rightarrow> budget \<Rightarrow> pystr" where
  "budget_category_name s b =
     (case category_of s (bcategory b) of None \<Rightarrow> [] | Some c \<Rightarrow> cname c)"

definition budget_has_type :: "store \<Rightarrow> cat_type \<Rightarrow> budget \<Rightarrow> bool" where
  "budget_has_type s ty b =
     (case category_of s (bcategory b) of None \<Rightarrow> False | Some c \<Rightarrow> ctype c = ty)"

definition spec_budget_entry :: "store \<Rightarrow> nat \<Rightarrow> int \<Rightarrow> int \<Rightarrow> budget \<Rightarrow> budget_entry" where
  "spec_budget_entry s user y m b =
     \<lparr>category_name = budget_category_name s b,
      budget_amount = bamount b,
      actual_amount = sum_list (map tamount (category_month_transactions s user (bcategory b) y m)),
      difference = bamount b
        - sum_list (map tamount (category_month_transactions s user (bcategory b) y m)),
      is_over_budget =
        (sum_list (map tamount (category_month_transactions s user (bcategory b) y m)) > bamount b)\<rparr>"

text \<open>
  The fixture with a single budget, of 60000 for October 2025, on the income category
  (models.py lets a budget reference any category).
\<close>

definition income_budget_store :: store where
  "income_budget_store =
     example_store\<lparr>budgets :=
       [\<lparr>bid = 1, buser = 1, bcategory = 2, bamount = 60000,
         bmonth = \<lparr>dyear = 2025, dmonth = 10, dday = 1\<rparr>\<rparr>]\<rparr>"

section \<open>CSV export and import\<close>

subsection \<open>Strings\<close>

text \<open>
  \<open>str.strip()\<close> removes leading and trailing whitespace; \<open>isspace\<close> lists the code
  points Python counts as whitespace.
\<close>

definition isspace :: "nat \<Rightarrow> bool" where
  "isspace c \<longleftrightarrow>
     (9 \<le> c \<and> c \<le> 13) \<or> (28 \<le> c \<and> c \<le> 32) \<or> c = 133 \<or> c = 160 \<or> c = 5760
     \<or> (8192 \<le> c \<and> c \<le> 8202) \<or> c = 8232 \<or> c = 8233 \<or> c = 8239 \<or> c = 8287
     \<or> c = 12288"

definition strip :: "pystr \<Rightarrow> pystr" where
  "strip s = rev (dropWhile isspace (rev (dropWhile isspace s)))"

text \<open>
  The literals of services.py, as code points: the type labels U+0414 U+043E U+0445
  U+043E U+0434 (income) and U+0420 U+0430 U+0441 U+0445 U+043E U+0434 (expense), the
  five column titles of the header row, and the messages of the two
  \<open>ValidationError\<close>s of the importer (empty file; unknown type, followed by the type
  string).
\<close>

definition label_income :: pystr where
  "label_income = [1044, 1086, 1093, 1086, 1076]"

definition label_expense :: pystr where
  "label_expense = [1056, 1072, 1089, 1093, 1086, 1076]"

definition header_row :: "pystr list" where
  "header_row =
     [[1044, 1072, 1090, 1072],
      [1058, 1080, 1087],
      [1050, 1072, 1090, 1077, 1075, 1086, 1088, 1080, 1103],
      [1057, 1091, 1084, 1084, 1072],
      [1054, 1087, 1080, 1089, 1072, 1085, 1080, 1077]]"

definition msg_empty_csv :: pystr where
  "msg_empty_csv =
     [1055, 1091, 1089, 1090, 1086, 1081, 32, 67, 83, 86, 45, 1092, 1072, 1081, 1083]"

definition msg_unknown_type :: pystr where
  "msg_unknown_type =
     [1053, 1077, 1080, 1079, 1074, 1077, 1089, 1090, 1085, 1099, 1081, 32, 1090, 1080,
      1087, 32, 1086, 1087, 1077, 1088, 1072, 1094, 1080, 1080, 58, 32]"

text \<open>The spec's names for the two errors.\<close>

definition EmptyInputError :: error where
  "EmptyInputError = ValidationError msg_empty_csv"

definition UnrecognizedTypeError :: "pystr \<Rightarrow> error" where
  "UnrecognizedTypeError type_str = ValidationError (msg_unknown_type @ type_str)"

subsection \<open>Library functions\<close>

text \<open>
  The conversions the services take from Python's standard library are parameters of the
  model: \<open>d.strftime('%Y-%m-%d')\<close>, \<open>date.fromisoformat(s)\<close> (\<open>None\<close> when it raises
  \<open>ValueError\<close>), \<open>str(amount)\<close> as \<open>csv.writer\<close> renders a \<open>Decimal\<close>, and
  \<open>Decimal(s)\<close> (\<open>None\<close> when it raises \<open>InvalidOperation\<close>). A \<open>Decimal\<close> is a
  finite number or one of the special values (\<open>NaN\<close>, the infinities), which
  \<open>Decimal(s)\<close> accepts too. The rows are those \<open>csv.writer\<close> is given and
  \<open>csv.reader\<close> yields.
\<close>

datatype pydecimal = Finite rat | NonFinite

record pylib =
  strftime_ymd :: "date \<Rightarrow> pystr"
  fromisoformat :: "pystr \<Rightarrow> date option"
  str_decimal :: "rat \<Rightarrow> pystr"
  Decimal :: "pystr \<Rightarrow> pydecimal option"

subsection \<open>Export\<close>





subsection \<open>Import\<close>

text \<open>
  \<open>Category.objects.get_or_create(name=..., type=..., user=...)\<close>: the one matching
  row, a new row when none matches, \<open>MultipleObjectsReturned\<close> when several do.
\<close>

definition get_or_create_category ::
  "pystr \<Rightarrow> cat_type \<Rightarrow> nat \<Rightarrow> store \<Rightarrow> error + (category \<times> store)" where
  "get_or_create_category name ty user s =
     (case filter (\<lambda>c. cname c = name \<and> ctype c = ty \<and> cuser c = user) (categories s) of
        [] \<Rightarrow>
          (let c = \<lparr>cid = fresh_id (map cid (categories s)), cname = name, ctype = ty,
                    cuser = user\<rparr>
           in Inr (c, s\<lparr>categories := categories s @ [c]\<rparr>))
      | [c] \<Rightarrow> Inr (c, s)
      | _ \<Rightarrow> Inl MultipleObjectsReturned)"

text \<open>
  Saving an amount to the column \<open>DecimalField(max_digits=12, decimal_places=2)\<close>
  (models.py, line 31), as Django's \<open>adapt_decimalfield_value\<close> prepares it: the value
  is quantized to two decimal places in a context of precision 12, which rounds half to
  even and raises \<open>InvalidOperation\<close> when the result needs more than 12 digits; a
  value that is not finite is refused. Length limits of the character columns are
  enforced by some database backends only and are not modelled.
\<close>

definition round_half_even :: "rat \<Rightarrow> int" where
  "round_half_even x =
     (let f = \<lfloor>x\<rfloor>; r = x - of_int f in
      if r < 1 / 2 then f else if 1 / 2 < r then f + 1 else if even f then f else f + 1)"

definition adapt_decimalfield_value :: "pydecimal \<Rightarrow> error + rat" where
  "adapt_decimalfield_value v =
     (case v of
        NonFinite \<Rightarrow> Inl NonFiniteDecimal
      | Finite a \<Rightarrow>
          (let n = round_half_even (a * 100) in
           if 10 ^ 12 \<le> \<bar>n\<bar> then Inl InvalidOperation else Inr (of_int n / 100)))"

text \<open>
  \<open>Transaction.objects.create(user=..., category=..., amount=..., ...)\<close>: the row is
  appended with the amount as the column stores it, or the save raises.
\<close>

definition create_transaction ::
  "nat \<Rightarrow> category \<Rightarrow> pydecimal \<Rightarrow> pystr \<Rightarrow> date \<Rightarrow> store \<Rightarrow> error + store" where
  "create_transaction user c amount description d s =
     (case adapt_decimalfield_value amount of
        Inl e \<Rightarrow> Inl e
      | Inr stored \<Rightarrow>
          Inr (s\<lparr>transactions := transactions s @
                 [\<lparr>tid = fresh_id (map tid (transactions s)), tuser = user, tamount = stored,
                   tcategory = cid c, tdescription = description, tdate = d\<rparr>]\<rparr>))"

text \<open>
  The body of the loop of \<open>import_transactions_from_csv\<close>, services.py lines 177-218,
  for one row: the row is skipped (\<open>continue\<close>), a transaction is inserted, or an
  exception is raised. The store is returned in each case, with what was written before
  the exception.
\<close>

datatype row_result = Skipped | Inserted | Raised error

definition cat_type_of_label :: "pystr \<Rightarrow> cat_type option" where
  "cat_type_of_label type_str =
     (if type_str = label_income then Some INCOME
      else if type_str = label_expense then Some EXPENSE
      else None)"

definition import_row :: "pylib \<Rightarrow> nat \<Rightarrow> pystr list \<Rightarrow> store \<Rightarrow> row_result \<times> store" where
  "import_row L user row s =
     (if row = [] \<or> list_all (\<lambda>cell. strip cell = []) row then (Skipped, s)
      else if length row < 4 then (Skipped, s)
      else
        (let date_str = strip (row ! 0);
             type_str = strip (row ! 1);
             category_name = strip (row ! 2);
             amount_str = strip (row ! 3);
             description = (if length row > 4 then strip (row ! 4) else [])
         in
           if date_str = [] \<or> type_str = [] \<or> category_name = [] \<or> amount_str = []
           then (Skipped, s)
           else
             (case cat_type_of_label type_str of
                None \<Rightarrow> (Raised (ValidationError (msg_unknown_type @ type_str)), s)
              | Some cat_type \<Rightarrow>
                  (case get_or_create_category category_name cat_type user s of
                     Inl e \<Rightarrow> (Raised e, s)
                   | Inr (category, s1) \<Rightarrow>
                       (case Decimal L amount_str of
                          None \<Rightarrow> (Raised InvalidOperation, s1)
                        | Some amount \<Rightarrow>
                            (case fromisoformat L date_str of
                               None \<Rightarrow> (Raised ValueError, s1)
                             | Some d \<Rightarrow>
                                 (case create_transaction user category amount description
                                         d s1 of
                                    Inl e \<Rightarrow> (Raised e, s1)
                                  | Inr s2 \<Rightarrow> (Inserted, s2))))))))"

fun import_loop ::
  "pylib \<Rightarrow> nat \<Rightarrow> pystr list list \<Rightarrow> store \<Rightarrow> nat \<Rightarrow> (error + nat) \<times> store" where
  "import_loop L user [] s cnt = (Inr cnt, s)"
| "import_loop L user (row # rows) s cnt =
     (case import_row L user row s of
        (Skipped, s') \<Rightarrow> import_loop L user rows s' cnt
      | (Inserted, s') \<Rightarrow> import_loop L user rows s' (cnt + 1)
      | (Raised e, s') \<Rightarrow> (Inl e, s'))"

text \<open>
  \<open>import_transactions_from_csv(file, user)\<close>, services.py lines 156-220, on the rows
  the reader yields: \<open>next(reader)\<close> takes the first row or, on \<open>StopIteration\<close>, the
  \<open>ValidationError\<close> of an empty file is raised; the loop runs over the other rows
  with the counter \<open>cnt\<close> (\<open>count\<close> in the source) starting at 0.
\<close>

definition import_transactions_from_csv ::
  "pylib \<Rightarrow> pystr list list \<Rightarrow> nat \<Rightarrow> store \<Rightarrow> (error + nat) \<times> store" where
  "import_transactions_from_csv L rows user s =
     (case rows of
        [] \<Rightarrow> (Inl (ValidationError msg_empty_csv), s)
      | header # data \<Rightarrow> import_loop L user data s 0)"

text \<open>
  The rows the loop skips, in the words of the spec: a row without fields or with only
  blank fields, a row with fewer than four fields, and a row whose date, type, category
  name or amount is empty after trimming.
\<close>

definition skipped_row :: "pystr list \<Rightarrow> bool" where
  "skipped_row row \<longleftrightarrow>
     row = [] \<or> list_all (\<lambda>cell. strip cell = []) row \<or> length row < 4
     \<or> (4 \<le> length row \<and>
         (strip (row ! 0) = [] \<or> strip (row ! 1) = [] \<or> strip (row ! 2) = []
          \<or> strip (row ! 3) = []))"

text \<open>\<open>TransactionForm.clean_amount\<close>, forms.py lines 22-26.\<close>

definition msg_positive :: pystr where
  "msg_positive =
     [1057, 1091, 1084, 1084, 1072, 32, 1076, 1086, 1083, 1078, 1085, 1072, 32, 1073, 1099,
      1090, 1100, 32, 1087, 1086, 1083, 1086, 1078, 1080, 1090, 1077, 1083, 1100, 1085,
      1086, 1081, 46]"

definition clean_amount :: "rat \<Rightarrow> error + rat" where
  "clean_amount amount =
     (if amount \<le> 0 then Inl (ValidationError msg_positive) else Inr amount)"

text \<open>
  An amount the column holds as it is: at most two decimal places and at most ten digits
  before the point.
\<close>

definition amount_column_ok :: "rat \<Rightarrow> bool" where
  "amount_column_ok a \<longleftrightarrow> a * 100 = of_int \<lfloor>a * 100\<rfloor> \<and> \<bar>a\<bar> < 10 ^ 10"

text \<open>
  The constraints the database keeps on the category table: primary keys are distinct,
  and \<open>unique_together = ('name', 'user', 'type')\<close>.
\<close>

definition category_constraints :: "store \<Rightarrow> bool" where
  "category_constraints s \<longleftrightarrow>
     distinct (map cid (categories s))
     \<and> (\<forall>c\<in>set (categories s). \<forall>c'\<in>set (categories s).
          cname c = cname c' \<and> ctype c = ctype c' \<and> cuser c = cuser c' \<longrightarrow> c = c')"

subsection \<open>An instance of the library functions\<close>

text \<open>
  To run the model on examples: dates written and read as \<open>YYYY-MM-DD\<close> with four
  digits for the year, amounts written with two decimal places and read as plain decimal
  numerals (an optional minus sign, digits, and an optional point followed by digits)
  or as \<open>Infinity\<close> and \<open>NaN\<close>.
  Python's functions accept more spellings than these readers do.
\<close>

definition is_digit :: "nat \<Rightarrow> bool" where
  "is_digit c \<longleftrightarrow> 48 \<le> c \<and> c \<le> 57"

definition pad2 :: "nat \<Rightarrow> pystr" where
  "pad2 n = [48 + n div 10 mod 10, 48 + n mod 10]"

definition pad4 :: "nat \<Rightarrow> pystr" where
  "pad4 n = [48 + n div 1000 mod 10, 48 + n div 100 mod 10, 48 + n div 10 mod 10, 48 + n mod 10]"

fun nat_digits :: "nat \<Rightarrow> pystr" where
  "nat_digits n = (if n < 10 then [48 + n] else nat_digits (n div 10) @ [48 + n mod 10])"

definition digits_value :: "pystr \<Rightarrow> nat" where
  "digits_value ds = foldl (\<lambda>a c. 10 * a + (c - 48)) 0 ds"

definition iso_strftime :: "date \<Rightarrow> pystr" where
  "iso_strftime d =
     pad4 (nat (dyear d)) @ [45] @ pad2 (nat (dmonth d)) @ [45] @ pad2 (nat (dday d))"

definition iso_fromisoformat :: "pystr \<Rightarrow> date option" where
  "iso_fromisoformat s =
     (if length s = 10 \<and> s ! 4 = 45 \<and> s ! 7 = 45
         \<and> list_all is_digit (take 4 s @ take 2 (drop 5 s) @ drop 8 s)
      then
        (case date_new (int (digits_value (take 4 s))) (int (digits_value (take 2 (drop 5 s))))
                (int (digits_value (drop 8 s))) of
           Inl e \<Rightarrow> None
         | Inr d \<Rightarrow> Some d)
      else None)"

definition plain_str_decimal :: "rat \<Rightarrow> pystr" where
  "plain_str_decimal a =
     (let n = nat \<lfloor>\<bar>a\<bar> * 100\<rfloor> in
      (if a < 0 then [45] else []) @ nat_digits (n div 100) @ [46] @ pad2 (n mod 100))"

definition plain_Decimal :: "pystr \<Rightarrow> pydecimal option" where
  "plain_Decimal s =
     (let neg = (s \<noteq> [] \<and> hd s = 45);
          body = (if neg then tl s else s);
          ip = takeWhile is_digit body;
          rest = dropWhile is_digit body
      in
        if body = ascii ''Infinity'' \<or> body = ascii ''NaN'' then Some NonFinite
        else if rest = [] then
          (if ip = [] then None
           else Some (Finite ((if neg then - 1 else 1) * of_nat (digits_value ip))))
        else if hd rest = 46 \<and> list_all is_digit (tl rest) \<and> (ip \<noteq> [] \<or> tl rest \<noteq> [])
        then Some (Finite ((if neg then - 1 else 1)
               * (of_nat (digits_value ip) + of_nat (digits_value (tl rest)) / 10 ^ length (tl rest))))
        else None)"

definition ref_lib :: pylib where
  "ref_lib = \<lparr>strftime_ymd = iso_strftime, fromisoformat = iso_fromisoformat,
              str_decimal = plain_str_decimal, Decimal = plain_Decimal\<rparr>"

definition empty_store :: store where
  "empty_store = \<lparr>categories = [], transactions = [], budgets = []\<rparr>"

text \<open>
  The file of \<open>test_import_csv\<close> (tests.py, lines 169-173), as the rows the reader
  yields: the header, an income row with an empty description and an expense row.
\<close>

definition test_csv_rows :: "pystr list list" where
  "test_csv_rows =
     [header_row,
      [ascii ''2025-10-01'', label_income, [1047, 1055], ascii ''50000'', []],
      [ascii ''2025-10-02'', label_expense, [1045, 1076, 1072], ascii ''1000'',
       [1055, 1088, 1086, 1076, 1091, 1082, 1090, 1099]]]"

text \<open>
  The store \<open>test_import_csv\<close> expects after the import for user 1 into an account
  without data: two categories and two transactions.
\<close>

definition test_store_imported :: store where
  "test_store_imported =
     \<lparr>categories =
        [\<lparr>cid = 1, cname = [1047, 1055], ctype = INCOME, cuser = 1\<rparr>,
         \<lparr>cid = 2, cname = [1045, 1076, 1072], ctype = EXPENSE, cuser = 1\<rparr>],
      transactions =
        [\<lparr>tid = 1, tuser = 1, tamount = 50000, tcategory = 1, tdescription = [],
           tdate = \<lparr>dyear = 2025, dmonth = 10, dday = 1\<rparr>\<rparr>,
         \<lparr>tid = 2, tuser = 1, tamount = 1000, tcategory = 2,
           tdescription = [1055, 1088, 1086, 1076, 1091, 1082, 1090, 1099],
           tdate = \<lparr>dyear = 2025, dmonth = 10, dday = 2\<rparr>\<rparr>],
      budgets = []\<rparr>"

section \<open>Budget form and view\<close>

text \<open>
  \<open>BudgetForm.clean_month\<close>, forms.py lines 56-61: \<open>month.replace(day=1)\<close> when a
  month was given (a \<open>date\<close> is always true), the value as it is otherwise.
\<close>

definition clean_month :: "date option \<Rightarrow> date option" where
  "clean_month month = (case month of None \<Rightarrow> None | Some d \<Rightarrow> Some (d\<lparr>dday := 1\<rparr>))"

text \<open>
  The bound data of a \<open>BudgetForm\<close>, as parsed by its fields: the key of the chosen
  category, the amount and the month. The form is valid when the category is one of the
  queryset of \<open>BudgetForm.__init__\<close>, the user's expense categories (forms.py, line 54).
\<close>

record budget_form =
  f_category :: nat
  f_amount :: rat
  f_month :: date

definition budget_form_is_valid :: "store \<Rightarrow> nat \<Rightarrow> budget_form \<Rightarrow> bool" where
  "budget_form_is_valid s user f \<longleftrightarrow>
     list_ex (\<lambda>c. cid c = f_category f \<and> cuser c = user \<and> ctype c = EXPENSE) (categories s)"

text \<open>
  The POST branch of \<open>budget_list\<close>, views.py lines 84-101: with a valid form, the first
  budget row (by primary key) of the user for the form's category and cleaned month gets
  the new amount and is saved; without such a row the new budget is saved. An invalid
  form writes nothing.
\<close>

definition budget_rows_for :: "store \<Rightarrow> nat \<Rightarrow> nat \<Rightarrow> date \<Rightarrow> budget list" where
  "budget_rows_for s user c month =
     filter (\<lambda>b. buser b = user \<and> bcategory b = c \<and> bmonth b = month) (budgets s)"

definition budget_list_post :: "store \<Rightarrow> nat \<Rightarrow> budget_form \<Rightarrow> store" where
  "budget_list_post s user f =
     (if \<not> budget_form_is_valid s user f then s
      else
        (case clean_month (Some (f_month f)) of
           None \<Rightarrow> s
         | Some month \<Rightarrow>
             (case sort_key bid (budget_rows_for s user (f_category f) month) of
                existing # _ \<Rightarrow>
                  s\<lparr>budgets := map (\<lambda>b. if bid b = bid existing
                                         then b\<lparr>bamount := f_amount f\<rparr> else b) (budgets s)\<rparr>
              | [] \<Rightarrow>
                  s\<lparr>budgets := budgets s @
                     [\<lparr>bid = fresh_id (map bid (budgets s)), buser = user,
                       bcategory = f_category f, bamount = f_amount f, bmonth = month\<rparr>]\<rparr>)))"

text \<open>
  The constraints the database keeps on the budget table: primary keys are distinct, and
  \<open>unique_together = ('user', 'category', 'month')\<close>.
\<close>

definition budget_constraints :: "store \<Rightarrow> bool" where
  "budget_constraints s \<longleftrightarrow>
     distinct (map bid (budgets s))
     \<and> (\<forall>b\<in>set (budgets s). \<forall>b'\<in>set (budgets s).
          buser b = buser b' \<and> bcategory b = bcategory b' \<and> bmonth b = bmonth b' \<longrightarrow> b = b')"

section \<open>Export followed by import\<close>










section \<open>Month boundaries\<close>

lemma div_pred:
  "0 < k \<Longrightarrow> (y::int) div k = (y - 1) div k + (if y mod k = 0 then 1 else 0)"
proof (cases "y mod k = 0")
  case True
  assume k: "0 < k"
  from True obtain q where q: "y = k * q" by (auto simp: mod_eq_0_iff_dvd)
  have e: "y - 1 = k * (q - 1) + (k - 1)" using q by (simp add: algebra_simps)
  have "(k * (q - 1) + (k - 1)) div k = q - 1" using k
    by (simp add: div_pos_pos_trivial)
  then have "(y - 1) div k = q - 1" by (simp only: e)
  then show ?thesis using q k True by simp
next
  case False
  assume k: "0 < k"
  have "y = k * (y div k) + y mod k" by simp
  then have e: "y - 1 = k * (y div k) + (y mod k - 1)" by linarith
  have "0 \<le> y mod k" using k by simp
  then have "0 < y mod k" using False by linarith
  then have "0 \<le> y mod k - 1" "y mod k - 1 < k" using k pos_mod_bound[of k y] by linarith+
  then have "(k * (y div k) + (y mod k - 1)) div k = y div k" using k
    by (simp add: div_pos_pos_trivial)
  then have "(y - 1) div k = y div k" by (simp only: e)
  then show ?thesis using False by simp
qed

lemma mod_dvd_down: "(a::int) dvd b \<Longrightarrow> y mod b = 0 \<Longrightarrow> y mod a = 0"
  by (meson dvd_trans mod_eq_0_iff_dvd)

lemma leap_sum:
  fixes y A B C A' B' C' a b c :: int
  assumes "A = A' + a" "B = B' + b" "C = C' + c"
  shows "y * 365 + A - B + C = (y - 1) * 365 + A' - B' + C' + (365 + a - b + c)"
  using assms by (simp add: algebra_simps)

text \<open>A year has 366 days when it is a leap year and 365 otherwise.\<close>

lemma days_before_year_step:
  "days_before_year (y + 1) = days_before_year y + (if is_leap y then 366 else 365)"
proof -
  have a: "y div 4 = (y - 1) div 4 + (if y mod 4 = 0 then 1 else 0)" by (rule div_pred) simp
  have b: "y div 100 = (y - 1) div 100 + (if y mod 100 = 0 then 1 else 0)" by (rule div_pred) simp
  have c: "y div 400 = (y - 1) div 400 + (if y mod 400 = 0 then 1 else 0)" by (rule div_pred) simp
  have d: "y mod 400 = 0 \<Longrightarrow> y mod 100 = 0" by (rule mod_dvd_down[of 100 400]) simp_all
  have d': "y mod 100 = 0 \<Longrightarrow> y mod 4 = 0" by (rule mod_dvd_down[of 4 100]) simp_all
  have l: "days_before_year (y + 1) = y * 365 + y div 4 - y div 100 + y div 400"
    by (simp add: days_before_year_def)
  have r: "days_before_year y = (y - 1) * 365 + (y - 1) div 4 - (y - 1) div 100 + (y - 1) div 400"
    by (simp add: days_before_year_def Let_def)
  have k: "(365::int) + (if y mod 4 = 0 then 1 else 0) - (if y mod 100 = 0 then 1 else 0)
             + (if y mod 400 = 0 then 1 else 0) = (if is_leap y then 366 else 365)"
    unfolding is_leap_def using d d'
    by (cases "y mod 4 = 0"; cases "y mod 100 = 0"; cases "y mod 400 = 0") simp_all
  show ?thesis
    unfolding l r k[symmetric] by (rule leap_sum[OF a b c])
qed

lemma days_before_month_step:
  "1 \<le> m \<Longrightarrow> m \<le> 11 \<Longrightarrow>
   days_before_month y (m + 1) = days_before_month y m + days_in_month y m"
proof -
  assume "1 \<le> m" "m \<le> 11"
  then have "m = 1 \<or> m = 2 \<or> m = 3 \<or> m = 4 \<or> m = 5 \<or> m = 6 \<or> m = 7 \<or> m = 8
      \<or> m = 9 \<or> m = 10 \<or> m = 11"
    by arith
  then show ?thesis
    by (elim disjE) (simp_all add: days_before_month_def days_in_month_def)
qed

text \<open>The last day of a month is one ordinal before the first day of the next month.\<close>

lemma toordinal_month_end:
  assumes "1 \<le> m" "m \<le> 12"
  shows "toordinal \<lparr>dyear = y, dmonth = m, dday = days_in_month y m\<rparr>
           = toordinal (first_of_next_month y m) - 1"
proof (cases "m = 12")
  case True
  have "days_before_month (y + 1) 1 = 0" by (simp add: days_before_month_def)
  moreover have "days_before_month y 12 = 334 + (if is_leap y then 1 else 0)"
    by (simp add: days_before_month_def)
  moreover have "days_in_month y 12 = 31" by (simp add: days_in_month_def)
  ultimately show ?thesis
    using True days_before_year_step[of y]
    by (simp add: toordinal_def first_of_next_month_def)
next
  case False
  then have "m \<le> 11" using assms by simp
  then show ?thesis
    using False assms days_before_month_step[of m y]
    by (simp add: toordinal_def first_of_next_month_def)
qed

lemma month_range_value:
  assumes "1 \<le> y" "y \<le> 9999" "1 \<le> m" "m \<le> 12" "\<not> (y = 9999 \<and> m = 12)"
  shows "month_range y m =
           Inr (\<lparr>dyear = y, dmonth = m, dday = 1\<rparr>,
                \<lparr>dyear = y, dmonth = m, dday = days_in_month y m\<rparr>)"
  using assms
  unfolding month_range_def date_new_def date_sub_resolution_def
  by (auto simp: days_in_month_def)

lemma month_range_relativedelta_value:
  assumes "1 \<le> y" "y \<le> 9999" "1 \<le> m" "m \<le> 12" "\<not> (y = 9999 \<and> m = 12)"
  shows "month_range_relativedelta y m =
           Inr (\<lparr>dyear = y, dmonth = m, dday = 1\<rparr>,
                \<lparr>dyear = y, dmonth = m, dday = days_in_month y m\<rparr>)"
  using assms
  unfolding month_range_relativedelta_def date_new_def date_sub_resolution_def
    add_relativedelta_month_def sub_relativedelta_day_def date_replace_def Let_def
  by (auto simp: days_in_month_def)

lemma first_of_next_month_pred:
  assumes "1 \<le> y" "1 \<le> m" "m \<le> 12"
  shows "date_sub_resolution (first_of_next_month y m)
           = Inr \<lparr>dyear = y, dmonth = m, dday = days_in_month y m\<rparr>"
  using assms
  unfolding first_of_next_month_def date_sub_resolution_def
  by (auto simp: days_in_month_def)

text \<open>
  Claim C7, as amended. For every year from 1 to 9999 and month from 1 to 12 other than
  December 9999, both month-range computations (the \<open>if month == 12\<close> form of
  \<open>get_monthly_summary\<close> and the \<open>relativedelta\<close> form of \<open>get_budget_vs_actual\<close>)
  return the first day of the month and, as last day, the day before the first day of the
  next month: that day is day \<open>days_in_month y m\<close> of the same month and year, its ordinal
  is one less than the ordinal of the first day of the next month, and for month 12 it is
  December 31 of year \<open>y\<close>.
\<close>

theorem month_range_exact:
  assumes "1 \<le> y" "y \<le> 9999" "1 \<le> m" "m \<le> 12" "\<not> (y = 9999 \<and> m = 12)"
  shows "month_range y m =
           Inr (\<lparr>dyear = y, dmonth = m, dday = 1\<rparr>,
                \<lparr>dyear = y, dmonth = m, dday = days_in_month y m\<rparr>)
       \<and> month_range_relativedelta y m = month_range y m
       \<and> date_sub_resolution (first_of_next_month y m)
           = Inr \<lparr>dyear = y, dmonth = m, dday = days_in_month y m\<rparr>
       \<and> toordinal \<lparr>dyear = y, dmonth = m, dday = days_in_month y m\<rparr>
           = toordinal (first_of_next_month y m) - 1
       \<and> (if m = 12 then days_in_month y m = 31 else 28 \<le> days_in_month y m)"
proof -
  have "(if m = 12 then days_in_month y m = 31 else 28 \<le> days_in_month y m)"
    by (simp add: days_in_month_def)
  then show ?thesis
    using month_range_value[OF assms] month_range_relativedelta_value[OF assms]
      first_of_next_month_pred[OF assms(1,3,4)] toordinal_month_end[OF assms(3,4)]
    by simp
qed

text \<open>
  The theorem at February 2024 (a leap year) and at December 2025 (the rollover into
  January 2026).
\<close>

theorem month_range_exact_witness:
  "month_range 2024 2 =
     Inr (\<lparr>dyear = 2024, dmonth = 2, dday = 1\<rparr>, \<lparr>dyear = 2024, dmonth = 2, dday = 29\<rparr>)
   \<and> month_range_relativedelta 2025 12 =
     Inr (\<lparr>dyear = 2025, dmonth = 12, dday = 1\<rparr>, \<lparr>dyear = 2025, dmonth = 12, dday = 31\<rparr>)
   \<and> toordinal \<lparr>dyear = 2025, dmonth = 12, dday = 31\<rparr>
       = toordinal \<lparr>dyear = 2026, dmonth = 1, dday = 1\<rparr> - 1"
  using month_range_exact[of 2024 2] month_range_exact[of 2025 12]
  by (simp add: days_in_month_def is_leap_def first_of_next_month_def)

text \<open>
  Claim C7 as stated fails for December of year 9999, a valid year and month: the first
  day of the next month is \<open>date(10000, 1, 1)\<close>, which \<open>date\<close> rejects, so both
  computations raise \<open>ValueError\<close> instead of ending the range on 9999-12-31.
\<close>

theorem month_range_december_9999:
  "month_range 9999 12 = Inl ValueError \<and> month_range_relativedelta 9999 12 = Inl ValueError"
  by (simp add: month_range_def month_range_relativedelta_def date_new_def
      add_relativedelta_month_def date_replace_def days_in_month_def)

section \<open>Aggregation results\<close>

lemma or_zero_sum: "or_zero (aggregate_sum ts) = sum_list (map tamount ts)"
  by (simp add: or_zero_def aggregate_sum_def)

lemma month_ok_range:
  "month_ok y m \<Longrightarrow> month_range y m = Inr (first_day y m, last_day y m)"
  unfolding month_ok_def first_day_def last_day_def
  by (intro month_range_value) auto

lemma month_ok_range_rd:
  "month_ok y m \<Longrightarrow> month_range_relativedelta y m = Inr (first_day y m, last_day y m)"
  unfolding month_ok_def first_day_def last_day_def
  by (intro month_range_relativedelta_value) auto

lemma summary_value:
  assumes "month_ok y m"
  shows "get_monthly_summary s u y m =
     Inr \<lparr>income = sum_list (map tamount (month_transactions s u INCOME y m)),
          expense = sum_list (map tamount (month_transactions s u EXPENSE y m)),
          balance = sum_list (map tamount (month_transactions s u INCOME y m))
                  - sum_list (map tamount (month_transactions s u EXPENSE y m))\<rparr>"
  by (simp add: get_monthly_summary_def month_ok_range[OF assms] or_zero_sum
      month_transactions_def in_month_def in_range_def Let_def)

lemma summary_balance:
  "get_monthly_summary s u y m = Inr r \<Longrightarrow> balance r = income r - expense r"
  by (auto simp: get_monthly_summary_def Let_def split: sum.splits prod.splits)

text \<open>
  Claim C5. For every store, user, year and month whose range exists,
  \<open>get_monthly_summary\<close> returns as income the sum of the amounts of the user's
  transactions in income categories dated from the first to the last day of the month, as
  expense the same sum over expense categories, and as balance their difference; and
  every summary it returns, for any arguments, satisfies balance = income - expense.
\<close>

theorem monthly_summary_sums:
  "(month_ok y m \<longrightarrow>
      get_monthly_summary s u y m =
        Inr \<lparr>income = sum_list (map tamount (month_transactions s u INCOME y m)),
             expense = sum_list (map tamount (month_transactions s u EXPENSE y m)),
             balance = sum_list (map tamount (month_transactions s u INCOME y m))
                     - sum_list (map tamount (month_transactions s u EXPENSE y m))\<rparr>)
   \<and> (\<forall>r. get_monthly_summary s u y m = Inr r \<longrightarrow> balance r = income r - expense r)"
  using summary_value summary_balance by blast

text \<open>
  The theorem on the fixture of tests.py (\<open>test_get_monthly_summary\<close>): October 2025
  has income 50000, expense 1500 and balance 48500.
\<close>

theorem monthly_summary_sums_witness:
  "month_ok 2025 10 \<and>
   get_monthly_summary example_store 1 2025 10 =
     Inr \<lparr>income = 50000, expense = 1500, balance = 48500\<rparr>"
  using monthly_summary_sums[of 2025 10 example_store 1]
  by (simp add: month_ok_def month_transactions_def has_type_def example_store_def category_of_def in_month_def first_day_def last_day_def date_le_def days_in_month_def)


lemma month_transactions_code:
  "month_ok y m \<Longrightarrow>
   filter (\<lambda>t. tuser t = u \<and> has_type s ty t \<and> in_range (first_day y m) (last_day y m) (tdate t))
     (transactions s) = month_transactions s u ty y m"
  by (simp add: month_transactions_def in_month_def in_range_def)

lemma breakdown_empty:
  assumes "month_ok y m" "month_transactions s u EXPENSE y m = []"
  shows "get_expense_breakdown_by_category s u y m = Inr []"
  using assms(2)
  by (simp add: get_expense_breakdown_by_category_def month_ok_range[OF assms(1)]
      month_transactions_code[OF assms(1)] Let_def)

lemma breakdown_returns:
  assumes "month_ok y m"
  shows "\<exists>g. get_expense_breakdown_by_category s u y m = Inr g"
  by (simp add: get_expense_breakdown_by_category_def month_ok_range[OF assms] Let_def)

lemma budget_returns:
  assumes "month_ok y m"
  shows "\<exists>es. get_budget_vs_actual s u y m = Inr es"
  by (simp add: get_budget_vs_actual_def month_ok_range_rd[OF assms])

lemma map_filter_all_Some:
  "\<forall>x\<in>set xs. f x \<noteq> None \<Longrightarrow> List.map_filter f xs = map (\<lambda>x. the (f x)) xs"
  by (induction xs) (auto simp: map_filter_simps)

lemma budget_actual_value:
  "budget_actual s u (first_day y m) (last_day y m) b
     = sum_list (map tamount (category_month_transactions s u (bcategory b) y m))"
  by (simp add: budget_actual_def or_zero_sum category_month_transactions_def in_month_def in_range_def)

lemma budget_row_Some:
  assumes "category_of s (bcategory b) = Some c"
  shows "budget_row s u (first_day y m) (last_day y m) b =
     Some \<lparr>category_name = cname c, budget_amount = bamount b,
          actual_amount = sum_list (map tamount (category_month_transactions s u (bcategory b) y m)),
          difference = bamount b - sum_list (map tamount (category_month_transactions s u (bcategory b) y m)),
          is_over_budget = (sum_list (map tamount (category_month_transactions s u (bcategory b) y m)) > bamount b)\<rparr>"
  by (simp add: budget_row_def assms budget_actual_value Let_def)

lemma budget_vs_actual_frame:
  assumes "\<forall>b\<in>set (month_budgets s u y m). bcategory b \<noteq> tcategory t"
  shows "get_budget_vs_actual (s\<lparr>transactions := t # transactions s\<rparr>) u y m = get_budget_vs_actual s u y m"
proof (cases "month_range_relativedelta y m")
  case (Inl e)
  then show ?thesis by (simp add: get_budget_vs_actual_def)
next
  case (Inr p)
  obtain a b where p: "p = (a, b)" by (cases p)
  have a: "a = first_day y m" 
    using Inr p unfolding month_range_relativedelta_def date_new_def first_day_def
    by (auto split: sum.splits if_splits)
  have "budget_row (s\<lparr>transactions := t # transactions s\<rparr>) u a b x = budget_row s u a b x"
    if "x \<in> set (month_budgets s u y m)" for x
    using that assms
    by (auto simp: budget_row_def budget_actual_def category_of_def Let_def split: option.splits)
  then have "List.map_filter (budget_row (s\<lparr>transactions := t # transactions s\<rparr>) u a b) (month_budgets s u y m)
      = List.map_filter (budget_row s u a b) (month_budgets s u y m)"
    by (simp add: map_filter_def cong: map_cong filter_cong)
  then show ?thesis
    using Inr p a by (simp add: get_budget_vs_actual_def month_budgets_def)
qed


lemma expense_category_total:
  assumes "budget_has_type s EXPENSE b"
  shows "category_month_transactions s u (bcategory b) y m
       = filter (\<lambda>t. tcategory t = bcategory b) (month_transactions s u EXPENSE y m)"
  using assms
  by (auto simp: category_month_transactions_def month_transactions_def has_type_def
      budget_has_type_def split: option.splits intro!: filter_cong)

lemma budget_row_spec:
  assumes "category_of s (bcategory b) \<noteq> None"
  shows "budget_row s u (first_day y m) (last_day y m) b = Some (spec_budget_entry s u y m b)"
  using assms
  by (auto simp: budget_row_Some spec_budget_entry_def budget_category_name_def)

lemma budget_vs_actual_value:
  assumes ok: "month_ok y m"
      and fk: "\<forall>b\<in>set (budgets s). category_of s (bcategory b) \<noteq> None"
  shows "get_budget_vs_actual s u y m = Inr (map (spec_budget_entry s u y m) (month_budgets s u y m))"
proof -
  have "\<forall>b\<in>set (month_budgets s u y m).
          budget_row s u (first_day y m) (last_day y m) b \<noteq> None"
    using fk by (simp add: month_budgets_def budget_row_spec)
  then have "List.map_filter (budget_row s u (first_day y m) (last_day y m)) (month_budgets s u y m)
      = map (\<lambda>b. the (budget_row s u (first_day y m) (last_day y m) b)) (month_budgets s u y m)"
    by (rule map_filter_all_Some)
  also have "\<dots> = map (spec_budget_entry s u y m) (month_budgets s u y m)"
    using fk by (simp add: month_budgets_def budget_row_spec)
  finally show ?thesis
    by (simp add: get_budget_vs_actual_def month_ok_range_rd[OF ok] month_budgets_def)
qed

text \<open>
  Claim C2, as amended. For every store whose budgets reference existing categories, every user and
  every year and month whose range exists, \<open>get_budget_vs_actual\<close> returns exactly one
  entry per budget row whose owner is the user and whose month is the first day of that
  month, in order; in each entry the actual amount is the total of the user's
  transactions of the budget's category dated within the month, whatever the type of
  that category (for a budget on an expense category: the sum over the month's expense
  transactions of that category; 0 when the category has no transaction in the month), the difference is budget minus
  actual, and the over-budget flag is set exactly when actual exceeds the budget. A
  transaction whose category has no budget for the month changes no entry and raises no
  error.
\<close>

theorem budget_vs_actual_entries:
  assumes ok: "month_ok y m"
      and fk: "\<forall>b\<in>set (budgets s). category_of s (bcategory b) \<noteq> None"
  shows "get_budget_vs_actual s u y m
           = Inr (map (spec_budget_entry s u y m) (month_budgets s u y m))
     \<and> (\<forall>b\<in>set (month_budgets s u y m).
          difference (spec_budget_entry s u y m b)
            = budget_amount (spec_budget_entry s u y m b) - actual_amount (spec_budget_entry s u y m b)
          \<and> (is_over_budget (spec_budget_entry s u y m b) \<longleftrightarrow>
               actual_amount (spec_budget_entry s u y m b) > budget_amount (spec_budget_entry s u y m b))
          \<and> (category_month_transactions s u (bcategory b) y m = [] \<longrightarrow>
               actual_amount (spec_budget_entry s u y m b) = 0)
          \<and> (budget_has_type s EXPENSE b \<longrightarrow>
               actual_amount (spec_budget_entry s u y m b) = sum_list (map tamount
                 (filter (\<lambda>t. tcategory t = bcategory b) (month_transactions s u EXPENSE y m)))))
     \<and> (\<forall>t::transaction. (\<forall>b\<in>set (month_budgets s u y m). bcategory b \<noteq> tcategory t) \<longrightarrow>
           get_budget_vs_actual (s\<lparr>transactions := t # transactions s\<rparr>) u y m
             = get_budget_vs_actual s u y m)"
proof (intro conjI ballI allI impI)
  show "get_budget_vs_actual s u y m
           = Inr (map (spec_budget_entry s u y m) (month_budgets s u y m))"
    by (rule budget_vs_actual_value[OF ok fk])
next
  fix b
  show "difference (spec_budget_entry s u y m b)
      = budget_amount (spec_budget_entry s u y m b) - actual_amount (spec_budget_entry s u y m b)"
    by (simp add: spec_budget_entry_def)
  show "is_over_budget (spec_budget_entry s u y m b) \<longleftrightarrow>
      actual_amount (spec_budget_entry s u y m b) > budget_amount (spec_budget_entry s u y m b)"
    by (simp add: spec_budget_entry_def)
  show "actual_amount (spec_budget_entry s u y m b) = 0"
    if "category_month_transactions s u (bcategory b) y m = []"
    using that by (simp add: spec_budget_entry_def)
  show "actual_amount (spec_budget_entry s u y m b) = sum_list (map tamount
       (filter (\<lambda>t. tcategory t = bcategory b) (month_transactions s u EXPENSE y m)))"
    if "budget_has_type s EXPENSE b"
    using expense_category_total[OF that] by (simp add: spec_budget_entry_def)
next
  fix t :: transaction
  assume "\<forall>b\<in>set (month_budgets s u y m). bcategory b \<noteq> tcategory t"
  then show "get_budget_vs_actual (s\<lparr>transactions := t # transactions s\<rparr>) u y m
             = get_budget_vs_actual s u y m"
    by (rule budget_vs_actual_frame)
qed

text \<open>
  The theorem on the fixture for October 2025: the transport budget has no transaction
  (actual 0), the food budget of 1200 is exceeded by 1500, and one more income
  transaction, in a category without budget, leaves the comparison unchanged.
\<close>

theorem budget_vs_actual_entries_witness:
  "month_ok 2025 10
   \<and> get_budget_vs_actual example_store 1 2025 10 =
       Inr [\<lparr>category_name = [1058, 1088, 1072, 1085, 1089, 1087, 1086, 1088, 1090],
             budget_amount = 5000, actual_amount = 0, difference = 5000,
             is_over_budget = False\<rparr>,
            \<lparr>category_name = [1045, 1076, 1072], budget_amount = 1200,
             actual_amount = 1500, difference = - 300, is_over_budget = True\<rparr>]
   \<and> get_budget_vs_actual
        (example_store\<lparr>transactions :=
           \<lparr>tid = 4, tuser = 1, tamount = 700, tcategory = 2, tdescription = [],
            tdate = \<lparr>dyear = 2025, dmonth = 10, dday = 7\<rparr>\<rparr> # transactions example_store\<rparr>)
        1 2025 10
       = get_budget_vs_actual example_store 1 2025 10"
proof -
  have ok: "month_ok 2025 10" by (simp add: month_ok_def)
  have fk: "\<forall>b\<in>set (budgets example_store). category_of example_store (bcategory b) \<noteq> None"
    by (simp add: example_store_def category_of_def)
  have mb: "month_budgets example_store 1 2025 10 = budgets example_store"
    by (simp add: month_budgets_def example_store_def first_day_def)
  have e1: "spec_budget_entry example_store 1 2025 10 (budgets example_store ! 0)
      = \<lparr>category_name = [1058, 1088, 1072, 1085, 1089, 1087, 1086, 1088, 1090],
             budget_amount = 5000, actual_amount = 0, difference = 5000,
             is_over_budget = False\<rparr>"
    by (simp add: spec_budget_entry_def budget_category_name_def category_of_def
        category_month_transactions_def example_store_def)
  have e2: "spec_budget_entry example_store 1 2025 10 (budgets example_store ! 1)
      = \<lparr>category_name = [1045, 1076, 1072], budget_amount = 1200,
             actual_amount = 1500, difference = - 300, is_over_budget = True\<rparr>"
    by (simp add: spec_budget_entry_def budget_category_name_def category_of_def
        category_month_transactions_def example_store_def in_month_def first_day_def
        last_day_def date_le_def days_in_month_def)
  have bs: "budgets example_store = [budgets example_store ! 0, budgets example_store ! 1]"
    by (simp add: example_store_def)
  have m: "map (spec_budget_entry example_store 1 2025 10) (budgets example_store)
     = [spec_budget_entry example_store 1 2025 10 (budgets example_store ! 0),
        spec_budget_entry example_store 1 2025 10 (budgets example_store ! 1)]"
    by (subst bs) simp
  have nb: "\<forall>b\<in>set (month_budgets example_store 1 2025 10). bcategory b \<noteq> 2"
    unfolding mb by (simp add: example_store_def)
  note th = budget_vs_actual_entries[OF ok fk, of 1]
  have r: "get_budget_vs_actual example_store 1 2025 10
      = Inr (map (spec_budget_entry example_store 1 2025 10)
              (month_budgets example_store 1 2025 10))"
    using th by (rule conjunct1)
  have f: "get_budget_vs_actual
        (example_store\<lparr>transactions :=
           \<lparr>tid = 4, tuser = 1, tamount = 700, tcategory = 2, tdescription = [],
            tdate = \<lparr>dyear = 2025, dmonth = 10, dday = 7\<rparr>\<rparr> # transactions example_store\<rparr>)
        1 2025 10
       = get_budget_vs_actual example_store 1 2025 10"
    using th nb by simp
  show ?thesis
    using ok r f unfolding mb m e1 e2 by blast
qed

text \<open>
  Claim C2 as stated fails for a budget on an income category: the comparison has no
  filter on the category's type, so the actual amount of the entry is the income 50000 of
  that category, while the expenses of the category in the month sum to 0.
\<close>

theorem budget_on_income_category:
  "get_budget_vs_actual income_budget_store 1 2025 10 =
     Inr [\<lparr>category_name = [1047, 1055], budget_amount = 60000, actual_amount = 50000,
           difference = 10000, is_over_budget = False\<rparr>]
   \<and> sum_list (map tamount (filter (\<lambda>t. tcategory t = 2)
        (month_transactions income_budget_store 1 EXPENSE 2025 10))) = 0"
proof -
  have ok: "month_ok 2025 10" by (simp add: month_ok_def)
  have fk: "\<forall>b\<in>set (budgets income_budget_store).
      category_of income_budget_store (bcategory b) \<noteq> None"
    by (simp add: income_budget_store_def example_store_def category_of_def)
  have mb: "month_budgets income_budget_store 1 2025 10 = budgets income_budget_store"
    by (simp add: month_budgets_def income_budget_store_def first_day_def)
  have bs: "budgets income_budget_store = [budgets income_budget_store ! 0]"
    by (simp add: income_budget_store_def)
  have e: "spec_budget_entry income_budget_store 1 2025 10 (budgets income_budget_store ! 0)
      = \<lparr>category_name = [1047, 1055], budget_amount = 60000, actual_amount = 50000,
           difference = 10000, is_over_budget = False\<rparr>"
    by (simp add: spec_budget_entry_def budget_category_name_def category_of_def
        category_month_transactions_def income_budget_store_def example_store_def
        in_month_def first_day_def last_day_def date_le_def days_in_month_def)
  have m: "map (spec_budget_entry income_budget_store 1 2025 10) (budgets income_budget_store)
      = [spec_budget_entry income_budget_store 1 2025 10 (budgets income_budget_store ! 0)]"
    by (subst bs) simp
  have r: "get_budget_vs_actual income_budget_store 1 2025 10 =
     Inr [\<lparr>category_name = [1047, 1055], budget_amount = 60000, actual_amount = 50000,
           difference = 10000, is_over_budget = False\<rparr>]"
    using budget_vs_actual_value[OF ok fk, of 1] unfolding mb m e .
  have x: "sum_list (map tamount (filter (\<lambda>t. tcategory t = 2)
        (month_transactions income_budget_store 1 EXPENSE 2025 10))) = 0"
    by (simp add: month_transactions_def has_type_def income_budget_store_def
        example_store_def category_of_def in_month_def first_day_def last_day_def
        date_le_def days_in_month_def)
  show ?thesis using r x by blast
qed

text \<open>
  Claim C6. For every store, user, year and month whose range exists: when no
  transaction matches (none of the user's income or expense transactions is dated in the
  month), \<open>get_monthly_summary\<close> returns income 0, expense 0 and balance 0; with no
  expense transaction in the month the breakdown is the empty list; when the categories
  of the user's budgets of the month have no transaction of the user in the month, the
  budget comparison returns one entry per budget with actual amount 0 and the budget
  amount as difference; on a store without data it is the empty list; and whatever the
  data, each of the three aggregation functions returns a result and raises nothing.
\<close>

theorem no_data_zero:
  assumes "month_ok y m"
  shows "(month_transactions s u INCOME y m = [] \<and> month_transactions s u EXPENSE y m = [] \<longrightarrow>
            get_monthly_summary s u y m = Inr \<lparr>income = 0, expense = 0, balance = 0\<rparr>)
       \<and> (month_transactions s u EXPENSE y m = [] \<longrightarrow>
            get_expense_breakdown_by_category s u y m = Inr [])
       \<and> ((\<forall>b\<in>set (budgets s). category_of s (bcategory b) \<noteq> None)
            \<and> (\<forall>b\<in>set (month_budgets s u y m).
                  category_month_transactions s u (bcategory b) y m = []) \<longrightarrow>
            get_budget_vs_actual s u y m =
              Inr (map (\<lambda>b. \<lparr>category_name = budget_category_name s b,
                               budget_amount = bamount b, actual_amount = 0,
                               difference = bamount b, is_over_budget = (0 > bamount b)\<rparr>)
                     (month_budgets s u y m)))
       \<and> (transactions s = [] \<and> budgets s = [] \<longrightarrow> get_budget_vs_actual s u y m = Inr [])
       \<and> (\<exists>r. get_monthly_summary s u y m = Inr r)
       \<and> (\<exists>g. get_expense_breakdown_by_category s u y m = Inr g)
       \<and> (\<exists>es. get_budget_vs_actual s u y m = Inr es)"
proof -
  have "get_monthly_summary s u y m = Inr \<lparr>income = 0, expense = 0, balance = 0\<rparr>"
    if "month_transactions s u INCOME y m = []" "month_transactions s u EXPENSE y m = []"
    using that summary_value[OF assms, of s u] by simp
  moreover have "get_budget_vs_actual s u y m = Inr []" if "budgets s = []"
    using that by (simp add: get_budget_vs_actual_def month_ok_range_rd[OF assms] map_filter_simps)
  moreover have "\<exists>r. get_monthly_summary s u y m = Inr r"
    using summary_value[OF assms, of s u] by blast
  moreover have "get_budget_vs_actual s u y m =
              Inr (map (\<lambda>b. \<lparr>category_name = budget_category_name s b,
                               budget_amount = bamount b, actual_amount = 0,
                               difference = bamount b, is_over_budget = (0 > bamount b)\<rparr>)
                     (month_budgets s u y m))"
    if fk: "\<forall>b\<in>set (budgets s). category_of s (bcategory b) \<noteq> None"
    and none: "\<forall>b\<in>set (month_budgets s u y m).
                  category_month_transactions s u (bcategory b) y m = []"
  proof -
    have "map (spec_budget_entry s u y m) (month_budgets s u y m)
        = map (\<lambda>b. \<lparr>category_name = budget_category_name s b,
                               budget_amount = bamount b, actual_amount = 0,
                               difference = bamount b, is_over_budget = (0 > bamount b)\<rparr>)
                     (month_budgets s u y m)"
      using none by (intro map_cong) (simp_all add: spec_budget_entry_def)
    then show ?thesis using budget_vs_actual_value[OF assms fk, of u] by simp
  qed
  ultimately show ?thesis
    using breakdown_empty[OF assms] breakdown_returns[OF assms] budget_returns[OF assms]
    by blast
qed

text \<open>
  The theorem on the fixture for November 2025, a month without transactions, on the
  fixture without its transactions for October 2025, where the two budgets get the
  actual amount 0, and on the empty store.
\<close>

theorem no_data_zero_witness:
  "month_ok 2025 11
   \<and> month_transactions example_store 1 INCOME 2025 11 = []
   \<and> month_transactions example_store 1 EXPENSE 2025 11 = []
   \<and> get_monthly_summary example_store 1 2025 11 = Inr \<lparr>income = 0, expense = 0, balance = 0\<rparr>
   \<and> get_expense_breakdown_by_category example_store 1 2025 11 = Inr []
   \<and> get_budget_vs_actual (example_store\<lparr>transactions := []\<rparr>) 1 2025 10 =
       Inr [\<lparr>category_name = [1058, 1088, 1072, 1085, 1089, 1087, 1086, 1088, 1090],
             budget_amount = 5000, actual_amount = 0, difference = 5000,
             is_over_budget = False\<rparr>,
            \<lparr>category_name = [1045, 1076, 1072], budget_amount = 1200,
             actual_amount = 0, difference = 1200, is_over_budget = False\<rparr>]
   \<and> get_budget_vs_actual \<lparr>categories = [], transactions = [], budgets = []\<rparr> 1 2025 11 = Inr []"
proof -
  have ok: "month_ok 2025 11" by (simp add: month_ok_def)
  have ok10: "month_ok 2025 10" by (simp add: month_ok_def)
  have a: "month_transactions example_store 1 INCOME 2025 11 = []"
    by (simp add: month_transactions_def has_type_def example_store_def category_of_def
        in_month_def first_day_def last_day_def date_le_def days_in_month_def)
  have b: "month_transactions example_store 1 EXPENSE 2025 11 = []"
    by (simp add: month_transactions_def has_type_def example_store_def category_of_def
        in_month_def first_day_def last_day_def date_le_def days_in_month_def)
  let ?s = "example_store\<lparr>transactions := []\<rparr>"
  have fk: "\<forall>b\<in>set (budgets ?s). category_of ?s (bcategory b) \<noteq> None"
    by (simp add: example_store_def category_of_def)
  have mb: "month_budgets ?s 1 2025 10 = budgets example_store"
    by (simp add: month_budgets_def example_store_def first_day_def)
  have none: "\<forall>b\<in>set (month_budgets ?s 1 2025 10).
                  category_month_transactions ?s 1 (bcategory b) 2025 10 = []"
    by (simp add: category_month_transactions_def)
  have z: "get_budget_vs_actual ?s 1 2025 10 =
              Inr (map (\<lambda>b. \<lparr>category_name = budget_category_name ?s b,
                               budget_amount = bamount b, actual_amount = 0,
                               difference = bamount b, is_over_budget = (0 > bamount b)\<rparr>)
                     (month_budgets ?s 1 2025 10))"
    using no_data_zero[OF ok10, of ?s 1] fk none by blast
  have zv: "map (\<lambda>b. \<lparr>category_name = budget_category_name ?s b,
                               budget_amount = bamount b, actual_amount = 0,
                               difference = bamount b, is_over_budget = (0 > bamount b)\<rparr>)
                     (budgets example_store)
      = [\<lparr>category_name = [1058, 1088, 1072, 1085, 1089, 1087, 1086, 1088, 1090],
             budget_amount = 5000, actual_amount = 0, difference = 5000,
             is_over_budget = False\<rparr>,
            \<lparr>category_name = [1045, 1076, 1072], budget_amount = 1200,
             actual_amount = 0, difference = 1200, is_over_budget = False\<rparr>]"
    by (simp add: example_store_def budget_category_name_def category_of_def)
  have z': "get_budget_vs_actual ?s 1 2025 10 =
       Inr [\<lparr>category_name = [1058, 1088, 1072, 1085, 1089, 1087, 1086, 1088, 1090],
             budget_amount = 5000, actual_amount = 0, difference = 5000,
             is_over_budget = False\<rparr>,
            \<lparr>category_name = [1045, 1076, 1072], budget_amount = 1200,
             actual_amount = 0, difference = 1200, is_over_budget = False\<rparr>]"
    using z unfolding mb zv .
  show ?thesis
    using ok a b z' no_data_zero[OF ok, of example_store 1]
      no_data_zero[OF ok, of "\<lparr>categories = [], transactions = [], budgets = []\<rparr>" 1]
    by simp
qed

section \<open>The importer\<close>

lemma create_transaction_errors:
  "create_transaction u c a dsc d s = Inl e \<Longrightarrow> e = InvalidOperation \<or> e = NonFiniteDecimal"
  by (auto simp: create_transaction_def adapt_decimalfield_value_def Let_def
      split: sum.splits pydecimal.splits if_splits)

lemma create_transaction_not_validation:
  "create_transaction u c a dsc d s \<noteq> Inl (ValidationError m)"
  using create_transaction_errors[of u c a dsc d s "ValidationError m"] by auto

lemma import_row_cases:
  "fst (import_row L u row s) = Skipped \<or> fst (import_row L u row s) = Inserted
   \<or> (\<exists>t. fst (import_row L u row s) = Raised (ValidationError (msg_unknown_type @ t)))
   \<or> fst (import_row L u row s) = Raised MultipleObjectsReturned
   \<or> fst (import_row L u row s) = Raised InvalidOperation
   \<or> fst (import_row L u row s) = Raised ValueError
   \<or> fst (import_row L u row s) = Raised NonFiniteDecimal"
  by (auto simp: import_row_def Let_def get_or_create_category_def
      split: option.splits sum.splits list.splits prod.splits
      dest: create_transaction_errors)

lemma msg_differ: "msg_unknown_type @ t \<noteq> msg_empty_csv"
  by (simp add: msg_unknown_type_def msg_empty_csv_def)

lemma import_row_not_empty_error:
  "fst (import_row L u row s) \<noteq> Raised (ValidationError msg_empty_csv)"
  using import_row_cases[of L u row s] msg_differ by auto

lemma import_loop_not_empty_error:
  "fst (import_loop L u rows s n) \<noteq> Inl (ValidationError msg_empty_csv)"
proof (induction rows arbitrary: s n)
  case Nil
  then show ?case by simp
next
  case (Cons row rows)
  obtain r s' where r: "import_row L u row s = (r, s')" by (cases "import_row L u row s")
  show ?case
  proof (cases r)
    case Skipped
    then show ?thesis using r Cons by simp
  next
    case Inserted
    then show ?thesis using r Cons by simp
  next
    case (Raised e)
    then show ?thesis using r import_row_not_empty_error[of L u row s] by auto
  qed
qed

text \<open>
  Claim C3. The import fails with the empty-file error exactly when the reader yields no
  row, and then writes nothing. Of a file with rows, the first row is taken as the header
  whatever it holds: the result is that of the loop over the other rows, and does not
  depend on the first row.
\<close>

theorem import_empty_file:
  "(fst (import_transactions_from_csv L rows u s) = Inl EmptyInputError \<longleftrightarrow> rows = [])
   \<and> import_transactions_from_csv L [] u s = (Inl EmptyInputError, s)
   \<and> import_transactions_from_csv L (header # data) u s = import_loop L u data s 0
   \<and> import_transactions_from_csv L (header # data) u s
       = import_transactions_from_csv L (header' # data) u s"
proof -
  have "fst (import_transactions_from_csv L rows u s) = Inl EmptyInputError \<longleftrightarrow> rows = []"
    using import_loop_not_empty_error[of L u _ s 0]
    by (cases rows) (simp_all add: import_transactions_from_csv_def EmptyInputError_def)
  then show ?thesis
    by (simp add: import_transactions_from_csv_def EmptyInputError_def)
qed

lemma skipped_row_import:
  "skipped_row row \<Longrightarrow> import_row L u row s = (Skipped, s)"
  by (auto simp: skipped_row_def import_row_def Let_def)

lemma not_skipped_row_import:
  "\<not> skipped_row row \<Longrightarrow> fst (import_row L u row s) \<noteq> Skipped"
  by (auto simp: skipped_row_def import_row_def Let_def get_or_create_category_def
      split: option.splits sum.splits list.splits prod.splits)

lemma import_loop_append:
  "import_loop L u (pre @ post) s n =
     (case import_loop L u pre s n of
        (Inl e, s') \<Rightarrow> (Inl e, s')
      | (Inr n', s') \<Rightarrow> import_loop L u post s' n')"
proof (induction pre arbitrary: s n)
  case Nil
  then show ?case by simp
next
  case (Cons row pre)
  obtain r s' where r: "import_row L u row s = (r, s')" by (cases "import_row L u row s")
  show ?case using r Cons by (cases r) simp_all
qed

lemma import_loop_skip:
  assumes "skipped_row row"
  shows "import_loop L u (pre @ row # post) s n = import_loop L u (pre @ post) s n"
  by (simp add: import_loop_append[of L u pre] skipped_row_import[OF assms]
      split: prod.splits sum.splits)


text \<open>Running the model on the file of \<open>test_import_csv\<close>.\<close>

lemma floor_rat_numeral [simp]:
  "\<lfloor>(numeral a :: rat) / numeral b\<rfloor> = numeral a div numeral b"
  by (metis floor_divide_of_int_eq of_int_numeral)

lemma floor_rat_neg_numeral [simp]:
  "\<lfloor>- ((numeral a :: rat) / numeral b)\<rfloor> = - numeral a div numeral b"
  by (metis divide_minus_left floor_divide_of_int_eq of_int_minus of_int_numeral)

lemmas eval_defs =
  import_row_def Let_def strip_def isspace_def ascii_def label_income_def label_expense_def
  cat_type_of_label_def get_or_create_category_def fresh_id_def ref_lib_def
  plain_Decimal_def is_digit_def digits_value_def iso_fromisoformat_def date_new_def
  days_in_month_def is_leap_def create_transaction_def adapt_decimalfield_value_def
  round_half_even_def

lemma test_row1:
  "import_row ref_lib 1 (test_csv_rows ! 1) empty_store =
     (Inserted, \<lparr>categories = [categories test_store_imported ! 0],
                 transactions = [transactions test_store_imported ! 0], budgets = []\<rparr>)"
  by (simp add: eval_defs test_csv_rows_def empty_store_def test_store_imported_def)

lemma test_row2:
  "import_row ref_lib 1 (test_csv_rows ! 2)
      \<lparr>categories = [categories test_store_imported ! 0],
       transactions = [transactions test_store_imported ! 0], budgets = []\<rparr>
     = (Inserted, test_store_imported)"
  by (simp add: eval_defs test_csv_rows_def empty_store_def test_store_imported_def)

lemma test_rows: "test_csv_rows = [test_csv_rows ! 0, test_csv_rows ! 1, test_csv_rows ! 2]"
  by (simp add: test_csv_rows_def)

lemma test_import_loop:
  "import_loop ref_lib 1 [test_csv_rows ! 1, test_csv_rows ! 2] empty_store 0
     = (Inr 2, test_store_imported)"
  by (simp only: import_loop.simps test_row1 test_row2 prod.case row_result.case, simp)

text \<open>
  The theorem on the empty file and on the file of \<open>test_import_csv\<close>: the header is
  consumed and two transactions are imported; with a data row in the place of the header,
  that row is consumed as the header and not imported.
\<close>

theorem import_empty_file_witness:
  "import_transactions_from_csv ref_lib [] 1 empty_store = (Inl EmptyInputError, empty_store)
   \<and> import_transactions_from_csv ref_lib test_csv_rows 1 empty_store
       = (Inr 2, test_store_imported)
   \<and> import_transactions_from_csv ref_lib
        [test_csv_rows ! 1, test_csv_rows ! 1, test_csv_rows ! 2] 1 empty_store
       = (Inr 2, test_store_imported)"
proof -
  note th = import_empty_file[of ref_lib _ 1 empty_store]
  have a: "import_transactions_from_csv ref_lib [] 1 empty_store = (Inl EmptyInputError, empty_store)"
    using th by blast
  have b: "import_transactions_from_csv ref_lib
        [test_csv_rows ! 0, test_csv_rows ! 1, test_csv_rows ! 2] 1 empty_store
      = import_loop ref_lib 1 [test_csv_rows ! 1, test_csv_rows ! 2] empty_store 0"
    using th by blast
  have c: "import_transactions_from_csv ref_lib
        [test_csv_rows ! 1, test_csv_rows ! 1, test_csv_rows ! 2] 1 empty_store
      = import_loop ref_lib 1 [test_csv_rows ! 1, test_csv_rows ! 2] empty_store 0"
    using th by blast
  show ?thesis
    using a b c test_import_loop test_rows by simp
qed

text \<open>
  Claim C8. A data row that has no field or only blank fields, that has fewer than four
  fields, or whose date, type, category name or amount is empty after trimming is
  skipped: the loop body raises nothing and leaves the store as it is, the counter is
  unchanged, and the import of a file gives the same result and store with and without
  such a row. A row with exactly three fields is such a row. No other row is skipped.
\<close>

theorem import_skips_rows:
  "(skipped_row row \<longrightarrow>
      import_row L u row s = (Skipped, s)
      \<and> import_loop L u (row # rows) s n = import_loop L u rows s n
      \<and> import_transactions_from_csv L (header # pre @ row # post) u s
          = import_transactions_from_csv L (header # pre @ post) u s)
   \<and> (length row = 3 \<longrightarrow> skipped_row row)
   \<and> (fst (import_row L u row s) = Skipped \<longleftrightarrow> skipped_row row)"
proof -
  have "fst (import_row L u row s) = Skipped \<longleftrightarrow> skipped_row row"
    using skipped_row_import[of row L u s] not_skipped_row_import[of row L u s] by auto
  moreover have "length row = 3 \<longrightarrow> skipped_row row"
    by (simp add: skipped_row_def)
  ultimately show ?thesis
    using skipped_row_import[of row L u s] import_loop_skip[of row L u pre post s 0]
    by (simp add: import_transactions_from_csv_def)
qed

text \<open>
  The theorem on a row with three fields and on a row with a blank type: the test file
  with the three-field row added imports the same two transactions.
\<close>

theorem import_skips_rows_witness:
  "skipped_row [ascii ''2025-10-03'', label_expense, [1045, 1076, 1072]]
   \<and> skipped_row [ascii ''2025-10-03'', ascii ''   '', [1045, 1076, 1072], ascii ''5'']
   \<and> import_transactions_from_csv ref_lib
        [test_csv_rows ! 0, test_csv_rows ! 1,
         [ascii ''2025-10-03'', label_expense, [1045, 1076, 1072]],
         test_csv_rows ! 2] 1 empty_store = (Inr 2, test_store_imported)"
proof -
  have a: "skipped_row [ascii ''2025-10-03'', label_expense, [1045, 1076, 1072]]"
    by (simp add: skipped_row_def)
  have b: "skipped_row [ascii ''2025-10-03'', ascii ''   '', [1045, 1076, 1072], ascii ''5'']"
    by (simp add: skipped_row_def strip_def isspace_def ascii_def)
  have c: "import_transactions_from_csv ref_lib
        (test_csv_rows ! 0 # [test_csv_rows ! 1] @
         [ascii ''2025-10-03'', label_expense, [1045, 1076, 1072]] #
         [test_csv_rows ! 2]) 1 empty_store
      = import_transactions_from_csv ref_lib
        (test_csv_rows ! 0 # [test_csv_rows ! 1] @ [test_csv_rows ! 2]) 1 empty_store"
    using import_skips_rows[of "[ascii ''2025-10-03'', label_expense, [1045, 1076, 1072]]"] a
    by blast
  have d: "import_transactions_from_csv ref_lib
        (test_csv_rows ! 0 # [test_csv_rows ! 1] @ [test_csv_rows ! 2]) 1 empty_store
       = (Inr 2, test_store_imported)"
    using test_import_loop by (simp add: import_transactions_from_csv_def)
  show ?thesis using a b c d by simp
qed


lemma import_row_unknown_type:
  assumes "\<not> skipped_row row" "strip (row ! 1) \<noteq> label_income" "strip (row ! 1) \<noteq> label_expense"
  shows "import_row L u row s = (Raised (UnrecognizedTypeError (strip (row ! 1))), s)"
  using assms
  by (auto simp: skipped_row_def import_row_def Let_def cat_type_of_label_def
      UnrecognizedTypeError_def)

text \<open>The loop body on a row that is not skipped and carries one of the two labels.\<close>

lemma import_row_stages:
  assumes "\<not> skipped_row row" "cat_type_of_label (strip (row ! 1)) = Some ty"
  shows "import_row L u row s =
     (case get_or_create_category (strip (row ! 2)) ty u s of
        Inl e \<Rightarrow> (Raised e, s)
      | Inr (category, s1) \<Rightarrow>
          (case Decimal L (strip (row ! 3)) of
             None \<Rightarrow> (Raised InvalidOperation, s1)
           | Some amount \<Rightarrow>
               (case fromisoformat L (strip (row ! 0)) of
                  None \<Rightarrow> (Raised ValueError, s1)
                | Some d \<Rightarrow>
                    (case create_transaction u category amount
                            (if length row > 4 then strip (row ! 4) else []) d s1 of
                       Inl e \<Rightarrow> (Raised e, s1)
                     | Inr s2 \<Rightarrow> (Inserted, s2)))))"
  using assms
  by (simp add: skipped_row_def import_row_def Let_def)

lemma get_or_create_category_errors:
  "get_or_create_category nm ty u s = Inl e \<Longrightarrow> e = MultipleObjectsReturned"
  by (auto simp: get_or_create_category_def Let_def split: list.splits)

lemma import_row_known_type:
  assumes "strip (row ! 1) = label_income \<or> strip (row ! 1) = label_expense"
  shows "fst (import_row L u row s) \<noteq> Raised (ValidationError m)"
proof (cases "skipped_row row")
  case True
  then show ?thesis by (simp add: skipped_row_import)
next
  case False
  have "\<exists>ty. cat_type_of_label (strip (row ! 1)) = Some ty"
    using assms by (cases "strip (row ! 1) = label_income") (simp_all add: cat_type_of_label_def)
  then obtain ty where ty: "cat_type_of_label (strip (row ! 1)) = Some ty" ..
  note st = import_row_stages[OF False ty, of L u s]
  show ?thesis
  proof (cases "get_or_create_category (strip (row ! 2)) ty u s")
    case (Inl e)
    then show ?thesis
      using get_or_create_category_errors[OF Inl] by (simp add: st)
  next
    case (Inr p)
    obtain c s1 where p: "p = (c, s1)" by (cases p)
    show ?thesis
    proof (cases "Decimal L (strip (row ! 3))")
      case None
      then show ?thesis using Inr p by (simp add: st)
    next
      case (Some a)
      note a = Some
      show ?thesis
      proof (cases "fromisoformat L (strip (row ! 0))")
        case None
        then show ?thesis using Inr p a by (simp add: st)
      next
        case (Some d)
        show ?thesis
        proof (cases "create_transaction u c a (if length row > 4 then strip (row ! 4) else []) d s1")
          case (Inl e)
          then have "e \<noteq> ValidationError m"
            using create_transaction_not_validation[of u c a _ d s1 m] by auto
          then show ?thesis using Inr p a Some Inl by (simp add: st)
        next
          case (Inr s2)
          then show ?thesis using \<open>get_or_create_category (strip (row ! 2)) ty u s = Inr p\<close> p a Some
            by (simp add: st)
        qed
      qed
    qed
  qed
qed

text \<open>
  Claim C9. On a row that is not skipped and whose trimmed type column is neither the
  income label nor the expense label, the loop body raises the unknown-type
  \<open>ValidationError\<close> with that type string and writes nothing; so the import of a file
  fails with that error as soon as it reaches such a row, that is, whenever the rows
  before it are processed without error, and the store is the one those rows left. On a
  row whose trimmed type column is one of the two labels the loop body never raises that
  error.
\<close>

theorem import_unrecognized_type:
  "(\<not> skipped_row row \<and> strip (row ! 1) \<noteq> label_income \<and> strip (row ! 1) \<noteq> label_expense \<longrightarrow>
      import_row L u row s = (Raised (UnrecognizedTypeError (strip (row ! 1))), s)
      \<and> (\<forall>s0 n. import_loop L u pre s0 0 = (Inr n, s) \<longrightarrow>
            import_transactions_from_csv L (header # pre @ row # post) u s0
              = (Inl (UnrecognizedTypeError (strip (row ! 1))), s)))
   \<and> (strip (row ! 1) = label_income \<or> strip (row ! 1) = label_expense \<longrightarrow>
        (\<forall>t. fst (import_row L u row s) \<noteq> Raised (UnrecognizedTypeError t)))"
proof (intro conjI impI allI)
  assume a: "\<not> skipped_row row \<and> strip (row ! 1) \<noteq> label_income \<and> strip (row ! 1) \<noteq> label_expense"
  then show r: "import_row L u row s = (Raised (UnrecognizedTypeError (strip (row ! 1))), s)"
    by (simp add: import_row_unknown_type)
  fix s0 n
  assume "import_loop L u pre s0 0 = (Inr n, s)"
  then show "import_transactions_from_csv L (header # pre @ row # post) u s0
              = (Inl (UnrecognizedTypeError (strip (row ! 1))), s)"
    using r by (simp add: import_transactions_from_csv_def import_loop_append[of L u pre])
next
  fix t
  assume "strip (row ! 1) = label_income \<or> strip (row ! 1) = label_expense"
  then show "fst (import_row L u row s) \<noteq> Raised (UnrecognizedTypeError t)"
    unfolding UnrecognizedTypeError_def by (rule import_row_known_type)
qed

lemma bad_type_row:
  "\<not> skipped_row [ascii ''2025-10-03'', ascii ''Income'', [1045, 1076, 1072], ascii ''5'']"
  by (simp add: skipped_row_def strip_def isspace_def ascii_def)

text \<open>
  The theorem on the test file followed by a row of type \<open>Income\<close>: the two rows before
  it are imported, then the import fails with the unknown-type error.
\<close>

theorem import_unrecognized_type_witness:
  "\<not> skipped_row [ascii ''2025-10-03'', ascii ''Income'', [1045, 1076, 1072], ascii ''5'']
   \<and> import_transactions_from_csv ref_lib
        [test_csv_rows ! 0, test_csv_rows ! 1, test_csv_rows ! 2,
         [ascii ''2025-10-03'', ascii ''Income'', [1045, 1076, 1072], ascii ''5'']] 1 empty_store
       = (Inl (UnrecognizedTypeError (ascii ''Income'')), test_store_imported)
   \<and> fst (import_row ref_lib 1 (test_csv_rows ! 1) empty_store) = Inserted"
proof -
  let ?row = "[ascii ''2025-10-03'', ascii ''Income'', [1045, 1076, 1072], ascii ''5'']"
  have st: "strip (?row ! 1) = ascii ''Income''"
    by (simp add: strip_def isspace_def ascii_def)
  have ne: "strip (?row ! 1) \<noteq> label_income" "strip (?row ! 1) \<noteq> label_expense"
    unfolding st by (simp_all add: ascii_def label_income_def label_expense_def)
  have "import_transactions_from_csv ref_lib
          (test_csv_rows ! 0 # [test_csv_rows ! 1, test_csv_rows ! 2] @ ?row # []) 1 empty_store
       = (Inl (UnrecognizedTypeError (strip (?row ! 1))), test_store_imported)"
    using import_unrecognized_type[of ?row ref_lib 1 test_store_imported
        "[test_csv_rows ! 1, test_csv_rows ! 2]" "test_csv_rows ! 0" "[]"]
      bad_type_row ne test_import_loop
    by blast
  then show ?thesis
    using bad_type_row test_row1 unfolding st by simp
qed


lemma filter_unique:
  assumes "distinct xs" "\<forall>x\<in>set xs. \<forall>y\<in>set xs. P x \<and> P y \<longrightarrow> x = y"
  shows "filter P xs = [] \<or> (\<exists>x. filter P xs = [x])"
  using assms
proof (induction xs)
  case Nil
  then show ?case by simp
next
  case (Cons a xs)
  show ?case
  proof (cases "P a")
    case True
    have "filter P xs = []"
    proof (rule ccontr)
      assume "filter P xs \<noteq> []"
      then obtain y where "y \<in> set (filter P xs)" by (cases "filter P xs") auto
      then have "y \<in> set xs" "P y" by auto
      then have "a = y" using True Cons.prems(2) by auto
      then show False using Cons.prems(1) \<open>y \<in> set xs\<close> by simp
    qed
    then show ?thesis using True by simp
  next
    case False
    then show ?thesis using Cons by auto
  qed
qed

lemma category_constraints_filter:
  assumes "category_constraints s"
  shows "filter (\<lambda>c. cname c = nm \<and> ctype c = ty \<and> cuser c = u) (categories s) = []
       \<or> (\<exists>c. filter (\<lambda>c. cname c = nm \<and> ctype c = ty \<and> cuser c = u) (categories s) = [c])"
proof (rule filter_unique)
  show "distinct (categories s)"
    using assms by (simp add: category_constraints_def distinct_map)
  show "\<forall>x\<in>set (categories s). \<forall>y\<in>set (categories s).
       (cname x = nm \<and> ctype x = ty \<and> cuser x = u) \<and> (cname y = nm \<and> ctype y = ty \<and> cuser y = u) \<longrightarrow> x = y"
    using assms by (auto simp: category_constraints_def)
qed

lemma get_or_create_ok:
  assumes "category_constraints s"
  shows "\<exists>c s1. get_or_create_category nm ty u s = Inr (c, s1)
           \<and> transactions s1 = transactions s \<and> budgets s1 = budgets s
           \<and> cname c = nm \<and> ctype c = ty \<and> cuser c = u \<and> c \<in> set (categories s1)"
proof -
  from category_constraints_filter[OF assms, of nm ty u]
  show ?thesis
  proof
    assume e: "filter (\<lambda>c. cname c = nm \<and> ctype c = ty \<and> cuser c = u) (categories s) = []"
    show ?thesis
      by (simp add: get_or_create_category_def e Let_def)
  next
    assume "\<exists>c. filter (\<lambda>c. cname c = nm \<and> ctype c = ty \<and> cuser c = u) (categories s) = [c]"
    then obtain c where e: "filter (\<lambda>c. cname c = nm \<and> ctype c = ty \<and> cuser c = u) (categories s) = [c]"
      by blast
    then have "c \<in> set (filter (\<lambda>c. cname c = nm \<and> ctype c = ty \<and> cuser c = u) (categories s))"
      by simp
    then have "cname c = nm \<and> ctype c = ty \<and> cuser c = u \<and> c \<in> set (categories s)" by auto
    then show ?thesis
      by (simp add: get_or_create_category_def e)
  qed
qed

text \<open>An amount the column holds as it is is stored unchanged.\<close>

lemma adapt_exact:
  assumes "amount_column_ok a"
  shows "adapt_decimalfield_value (Finite a) = Inr a"
proof -
  let ?n = "\<lfloor>a * 100\<rfloor>"
  have e: "a * 100 = of_int ?n" and b: "\<bar>a\<bar> < 10 ^ 10"
    using assms by (simp_all add: amount_column_ok_def)
  have r: "round_half_even (a * 100) = ?n"
    using e by (simp add: round_half_even_def Let_def)
  have "\<bar>a * 100\<bar> < 10 ^ 12" using b by (simp add: abs_mult)
  then have "\<bar>(of_int ?n :: rat)\<bar> < of_int (10 ^ 12)" using e by simp
  then have lt: "\<bar>?n\<bar> < 10 ^ 12"
    by (metis of_int_abs of_int_less_iff)
  have "(of_int ?n :: rat) / 100 = a" using e by simp
  then show ?thesis using r lt
    by (simp add: adapt_decimalfield_value_def Let_def)
qed

text \<open>
  Claim C10, as amended. The loop body makes no positivity check on the amount: on every
  row that is not skipped, whose type column is one of the two labels, whose date
  \<open>date.fromisoformat\<close> accepts and whose amount \<open>Decimal\<close> reads as a finite number
  that fits the amount column, in a store that keeps the uniqueness constraint of
  categories, it inserts one transaction of the user with the parsed date and with the
  amount as the column stores it, whatever its sign, and the counter goes up by one. The
  stored amount is exactly the parsed one when that has at most two decimal places and at
  most ten digits before the point. \<open>TransactionForm.clean_amount\<close> rejects the same
  amount when it is zero or negative.
\<close>

theorem import_amount_unchecked:
  assumes ns: "\<not> skipped_row row"
      and ty: "strip (row ! 1) = label_income \<or> strip (row ! 1) = label_expense"
      and dt: "fromisoformat L (strip (row ! 0)) = Some d"
      and am: "Decimal L (strip (row ! 3)) = Some (Finite a)"
      and fit: "adapt_decimalfield_value (Finite a) = Inr q"
      and cc: "category_constraints s"
  shows "\<exists>s' t. import_row L u row s = (Inserted, s')
           \<and> transactions s' = transactions s @ [t]
           \<and> tamount t = q \<and> tuser t = u \<and> tdate t = d
           \<and> import_loop L u (row # rows) s n = import_loop L u rows s' (n + 1)
           \<and> (amount_column_ok a \<longrightarrow> q = a)
           \<and> (if a \<le> 0 then clean_amount a = Inl (ValidationError msg_positive)
               else clean_amount a = Inr a)"
proof -
  have "\<exists>cty. cat_type_of_label (strip (row ! 1)) = Some cty"
    using ty by (cases "strip (row ! 1) = label_income") (simp_all add: cat_type_of_label_def)
  then obtain cty where cty: "cat_type_of_label (strip (row ! 1)) = Some cty" ..
  from get_or_create_ok[OF cc, of "strip (row ! 2)" cty u]
  obtain c s1 where g: "get_or_create_category (strip (row ! 2)) cty u s = Inr (c, s1)"
    and t1: "transactions s1 = transactions s" by blast
  let ?desc = "if length row > 4 then strip (row ! 4) else []"
  let ?t = "\<lparr>tid = fresh_id (map tid (transactions s1)), tuser = u, tamount = q,
             tcategory = cid c, tdescription = ?desc, tdate = d\<rparr>"
  let ?s' = "s1\<lparr>transactions := transactions s1 @ [?t]\<rparr>"
  have ct: "create_transaction u c (Finite a) ?desc d s1 = Inr ?s'"
    by (simp add: create_transaction_def fit)
  have r: "import_row L u row s = (Inserted, ?s')"
    by (simp add: import_row_stages[OF ns cty] g am dt ct)
  have "transactions ?s' = transactions s @ [?t] \<and> tamount ?t = q \<and> tuser ?t = u \<and> tdate ?t = d"
    by (simp add: t1)
  moreover have "import_loop L u (row # rows) s n = import_loop L u rows ?s' (n + 1)"
    by (simp add: r)
  moreover have "amount_column_ok a \<longrightarrow> q = a"
    using adapt_exact[of a] fit by auto
  moreover have "(if a \<le> 0 then clean_amount a = Inl (ValidationError msg_positive)
               else clean_amount a = Inr a)"
    by (simp add: clean_amount_def)
  ultimately show ?thesis using r by blast
qed

lemma empty_store_constraints: "category_constraints empty_store"
  by (simp add: category_constraints_def empty_store_def)

text \<open>
  The theorem on an expense row with amount -50 and on an income row with amount 0.00:
  both are inserted with that amount, and the form rejects both amounts.
\<close>

theorem import_amount_unchecked_witness:
  "\<not> skipped_row [ascii ''2025-10-03'', label_expense, [1045, 1076, 1072], ascii ''-50'']
   \<and> fromisoformat ref_lib (ascii ''2025-10-03'') = Some \<lparr>dyear = 2025, dmonth = 10, dday = 3\<rparr>
   \<and> Decimal ref_lib (ascii ''-50'') = Some (Finite (- 50))
   \<and> adapt_decimalfield_value (Finite (- 50)) = Inr (- 50)
   \<and> (\<exists>s' t. import_row ref_lib 1
          [ascii ''2025-10-03'', label_expense, [1045, 1076, 1072], ascii ''-50''] empty_store
            = (Inserted, s')
        \<and> transactions s' = [t] \<and> tamount t = - 50)
   \<and> clean_amount (- 50) = Inl (ValidationError msg_positive)
   \<and> (\<exists>s' t. import_row ref_lib 1
          [ascii ''2025-10-03'', label_income, [1047, 1055], ascii ''0.00''] empty_store
            = (Inserted, s')
        \<and> transactions s' = [t] \<and> tamount t = 0)
   \<and> clean_amount 0 = Inl (ValidationError msg_positive)"
proof -
  let ?r1 = "[ascii ''2025-10-03'', label_expense, [1045, 1076, 1072], ascii ''-50'']"
  let ?r2 = "[ascii ''2025-10-03'', label_income, [1047, 1055], ascii ''0.00'']"
  let ?d = "\<lparr>dyear = 2025, dmonth = 10, dday = 3\<rparr>"
  have s: "strip (ascii ''2025-10-03'') = ascii ''2025-10-03''" "strip (ascii ''-50'') = ascii ''-50''"
    "strip (ascii ''0.00'') = ascii ''0.00''" "strip label_expense = label_expense"
    "strip label_income = label_income" "strip [1045, 1076, 1072] = [1045, 1076, 1072]"
    "strip [1047, 1055] = [1047, 1055]"
    by (simp_all add: strip_def isspace_def ascii_def label_expense_def label_income_def)
  have ne: "label_expense \<noteq> []" "label_income \<noteq> []"
    by (simp_all add: label_expense_def label_income_def)
  have ns1: "\<not> skipped_row ?r1" and ns2: "\<not> skipped_row ?r2"
    using ne by (simp_all add: skipped_row_def s) (simp_all add: ascii_def)
  have a1: "Decimal ref_lib (ascii ''-50'') = Some (Finite (- 50))"
    by (simp add: ref_lib_def plain_Decimal_def ascii_def is_digit_def digits_value_def)
  have a2: "Decimal ref_lib (ascii ''0.00'') = Some (Finite 0)"
    by (simp add: ref_lib_def plain_Decimal_def ascii_def is_digit_def digits_value_def)
  have q1: "adapt_decimalfield_value (Finite (- 50)) = Inr (- 50)"
    by (simp add: adapt_decimalfield_value_def round_half_even_def Let_def)
  have q2: "adapt_decimalfield_value (Finite 0) = Inr 0"
    by (simp add: adapt_decimalfield_value_def round_half_even_def Let_def)
  have d: "fromisoformat ref_lib (ascii ''2025-10-03'') = Some ?d"
    by (simp add: ref_lib_def iso_fromisoformat_def ascii_def is_digit_def digits_value_def
        date_new_def days_in_month_def)
  have t1: "\<exists>s' t. import_row ref_lib 1 ?r1 empty_store = (Inserted, s')
        \<and> transactions s' = [t] \<and> tamount t = - 50"
    using import_amount_unchecked[of ?r1 ref_lib ?d "- 50" "- 50" empty_store 1 "[]" 0]
      ns1 a1 q1 d empty_store_constraints
    by (simp add: s) (auto simp: empty_store_def)
  have t2: "\<exists>s' t. import_row ref_lib 1 ?r2 empty_store = (Inserted, s')
        \<and> transactions s' = [t] \<and> tamount t = 0"
    using import_amount_unchecked[of ?r2 ref_lib ?d 0 0 empty_store 1 "[]" 0]
      ns2 a2 q2 d empty_store_constraints
    by (simp add: s) (auto simp: empty_store_def)
  have c: "clean_amount (- 50) = Inl (ValidationError msg_positive)"
    "clean_amount 0 = Inl (ValidationError msg_positive)"
    by (simp_all add: clean_amount_def)
  show ?thesis using ns1 a1 q1 d t1 t2 c by blast
qed

text \<open>
  Claim C10 as stated fails on rows that are not skipped and whose amount parses. With
  the date written \<open>01.10.2025\<close> the category is created, then \<open>date.fromisoformat\<close>
  raises \<open>ValueError\<close>, no transaction is inserted and the import fails. With the amount
  \<open>1.005\<close> the transaction is inserted with the amount 1, as the column rounds it. With
  the amount \<open>12345678901\<close> the save raises \<open>InvalidOperation\<close> and nothing is inserted.
\<close>

theorem import_bad_date_not_inserted:
  "\<not> skipped_row [ascii ''01.10.2025'', label_expense, [1045, 1076, 1072], ascii ''50'']
   \<and> Decimal ref_lib (strip (ascii ''50'')) = Some (Finite 50)
   \<and> import_row ref_lib 1
        [ascii ''01.10.2025'', label_expense, [1045, 1076, 1072], ascii ''50''] empty_store
      = (Raised ValueError,
         \<lparr>categories = [\<lparr>cid = 1, cname = [1045, 1076, 1072], ctype = EXPENSE, cuser = 1\<rparr>],
          transactions = [], budgets = []\<rparr>)
   \<and> import_transactions_from_csv ref_lib
        [header_row, [ascii ''01.10.2025'', label_expense, [1045, 1076, 1072], ascii ''50'']]
        1 empty_store
      = (Inl ValueError,
         \<lparr>categories = [\<lparr>cid = 1, cname = [1045, 1076, 1072], ctype = EXPENSE, cuser = 1\<rparr>],
          transactions = [], budgets = []\<rparr>)
   \<and> Decimal ref_lib (strip (ascii ''1.005'')) = Some (Finite (201 / 200))
   \<and> import_row ref_lib 1
        [ascii ''2025-10-03'', label_expense, [1045, 1076, 1072], ascii ''1.005''] empty_store
      = (Inserted,
         \<lparr>categories = [\<lparr>cid = 1, cname = [1045, 1076, 1072], ctype = EXPENSE, cuser = 1\<rparr>],
          transactions = [\<lparr>tid = 1, tuser = 1, tamount = 1, tcategory = 1, tdescription = [],
                            tdate = \<lparr>dyear = 2025, dmonth = 10, dday = 3\<rparr>\<rparr>],
          budgets = []\<rparr>)
   \<and> Decimal ref_lib (strip (ascii ''12345678901'')) = Some (Finite 12345678901)
   \<and> import_row ref_lib 1
        [ascii ''2025-10-03'', label_expense, [1045, 1076, 1072], ascii ''12345678901'']
        empty_store
      = (Raised InvalidOperation,
         \<lparr>categories = [\<lparr>cid = 1, cname = [1045, 1076, 1072], ctype = EXPENSE, cuser = 1\<rparr>],
          transactions = [], budgets = []\<rparr>)"
proof -
  let ?r = "[ascii ''01.10.2025'', label_expense, [1045, 1076, 1072], ascii ''50'']"
  let ?s1 = "\<lparr>categories = [\<lparr>cid = 1, cname = [1045, 1076, 1072], ctype = EXPENSE, cuser = 1\<rparr>],
          transactions = [], budgets = []\<rparr>"
  have ns: "\<not> skipped_row ?r"
    by (simp add: skipped_row_def strip_def isspace_def ascii_def label_expense_def)
  have a: "Decimal ref_lib (strip (ascii ''50'')) = Some (Finite 50)"
    by (simp add: ref_lib_def plain_Decimal_def ascii_def is_digit_def digits_value_def
        strip_def isspace_def)
  have r: "import_row ref_lib 1 ?r empty_store = (Raised ValueError, ?s1)"
    by (simp add: eval_defs empty_store_def)
  have i: "import_transactions_from_csv ref_lib [header_row, ?r] 1 empty_store
      = (Inl ValueError, ?s1)"
    by (simp only: import_transactions_from_csv_def list.case import_loop.simps r prod.case
        row_result.case)
  have b: "Decimal ref_lib (strip (ascii ''1.005'')) = Some (Finite (201 / 200))"
    by (simp add: ref_lib_def plain_Decimal_def ascii_def is_digit_def digits_value_def
        strip_def isspace_def)
  have rb: "import_row ref_lib 1
        [ascii ''2025-10-03'', label_expense, [1045, 1076, 1072], ascii ''1.005''] empty_store
      = (Inserted,
         \<lparr>categories = [\<lparr>cid = 1, cname = [1045, 1076, 1072], ctype = EXPENSE, cuser = 1\<rparr>],
          transactions = [\<lparr>tid = 1, tuser = 1, tamount = 1, tcategory = 1, tdescription = [],
                            tdate = \<lparr>dyear = 2025, dmonth = 10, dday = 3\<rparr>\<rparr>],
          budgets = []\<rparr>)"
    by (simp add: eval_defs empty_store_def)
  have c: "Decimal ref_lib (strip (ascii ''12345678901'')) = Some (Finite 12345678901)"
    by (simp add: ref_lib_def plain_Decimal_def ascii_def is_digit_def digits_value_def
        strip_def isspace_def)
  have rc: "import_row ref_lib 1
        [ascii ''2025-10-03'', label_expense, [1045, 1076, 1072], ascii ''12345678901'']
        empty_store = (Raised InvalidOperation, ?s1)"
    by (simp add: eval_defs empty_store_def)
  show ?thesis using ns a r i b rb c rc by blast
qed

section \<open>Budget upsert\<close>

lemma fold_max_ge: "a \<le> fold max xs (a::nat)"
  by (induction xs arbitrary: a) (auto intro: order_trans[OF max.cobounded2])

lemma fold_max_mem: "x \<in> set xs \<Longrightarrow> x \<le> fold max xs (a::nat)"
proof (induction xs arbitrary: a)
  case Nil
  then show ?case by simp
next
  case (Cons y ys)
  show ?case
  proof (cases "x = y")
    case True
    have "y \<le> max y a" by simp
    also have "\<dots> \<le> fold max ys (max y a)" by (rule fold_max_ge)
    finally show ?thesis using True by simp
  next
    case False
    then have "x \<in> set ys" using Cons.prems by simp
    then show ?thesis using Cons.IH by simp
  qed
qed

lemma fresh_id_fresh: "x \<in> set ids \<Longrightarrow> x < fresh_id ids"
  using fold_max_mem[of x ids 0] by (simp add: fresh_id_def)

lemma fresh_id_notin: "fresh_id ids \<notin> set ids"
  using fresh_id_fresh[of "fresh_id ids" ids] by auto

lemma budget_constraints_rows:
  assumes "budget_constraints s"
  shows "budget_rows_for s u c m = [] \<or> (\<exists>b. budget_rows_for s u c m = [b])"
  unfolding budget_rows_for_def
proof (rule filter_unique)
  show "distinct (budgets s)"
    using assms by (simp add: budget_constraints_def distinct_map)
  show "\<forall>x\<in>set (budgets s). \<forall>y\<in>set (budgets s).
       (buser x = u \<and> bcategory x = c \<and> bmonth x = m) \<and> (buser y = u \<and> bcategory y = c \<and> bmonth y = m) \<longrightarrow> x = y"
    using assms by (auto simp: budget_constraints_def)
qed

lemma upsert_insert:
  assumes cs: "budget_constraints s" and v: "budget_form_is_valid s u f"
      and e: "budget_rows_for s u (f_category f) ((f_month f)\<lparr>dday := 1\<rparr>) = []"
  shows "budget_constraints (budget_list_post s u f)
       \<and> budget_rows_for (budget_list_post s u f) u (f_category f) ((f_month f)\<lparr>dday := 1\<rparr>)
           = [\<lparr>bid = fresh_id (map bid (budgets s)), buser = u, bcategory = f_category f,
               bamount = f_amount f, bmonth = (f_month f)\<lparr>dday := 1\<rparr>\<rparr>]"
proof -
  let ?m = "(f_month f)\<lparr>dday := 1\<rparr>"
  let ?new = "\<lparr>bid = fresh_id (map bid (budgets s)), buser = u, bcategory = f_category f,
               bamount = f_amount f, bmonth = ?m\<rparr>"
  have p: "budget_list_post s u f = s\<lparr>budgets := budgets s @ [?new]\<rparr>"
    using v e by (simp add: budget_list_post_def clean_month_def)
  have nokey: "\<forall>b\<in>set (budgets s). \<not> (buser b = u \<and> bcategory b = f_category f \<and> bmonth b = ?m)"
    using e by (auto simp: budget_rows_for_def filter_empty_conv)
  have "budget_constraints (s\<lparr>budgets := budgets s @ [?new]\<rparr>)"
    using cs nokey fresh_id_notin[of "map bid (budgets s)"]
    by (auto simp: budget_constraints_def)
  moreover have "budget_rows_for (s\<lparr>budgets := budgets s @ [?new]\<rparr>) u (f_category f) ?m = [?new]"
    using e by (simp add: budget_rows_for_def)
  ultimately show ?thesis by (simp add: p)
qed

lemma filter_map_same:
  "(\<And>x. P (f x) = P x) \<Longrightarrow> filter P (map f xs) = map f (filter P xs)"
  by (induction xs) auto

lemma map_bid_update:
  "map bid (map (\<lambda>x. if bid x = k then x\<lparr>bamount := a\<rparr> else x) xs) = map bid xs"
  by (induction xs) auto

lemma budget_key_map:
  assumes u: "\<forall>x\<in>set xs. \<forall>y\<in>set xs.
       buser x = buser y \<and> bcategory x = bcategory y \<and> bmonth x = bmonth y \<longrightarrow> x = y"
    and k: "\<And>x. buser (g x) = buser x \<and> bcategory (g x) = bcategory x \<and> bmonth (g x) = bmonth x"
  shows "\<forall>x\<in>set (map g xs). \<forall>y\<in>set (map g xs).
       buser x = buser y \<and> bcategory x = bcategory y \<and> bmonth x = bmonth y \<longrightarrow> x = y"
proof (intro ballI impI)
  fix x y
  assume x: "x \<in> set (map g xs)" and y: "y \<in> set (map g xs)"
    and e: "buser x = buser y \<and> bcategory x = bcategory y \<and> bmonth x = bmonth y"
  from x obtain x0 where x0: "x0 \<in> set xs" "x = g x0" by (auto simp: image_iff)
  from y obtain y0 where y0: "y0 \<in> set xs" "y = g y0" by (auto simp: image_iff)
  have "buser x0 = buser y0 \<and> bcategory x0 = bcategory y0 \<and> bmonth x0 = bmonth y0"
    using e k[of x0] k[of y0] unfolding x0(2) y0(2) by simp
  then have "x0 = y0" using u x0(1) y0(1) by blast
  then show "x = y" using x0(2) y0(2) by simp
qed

lemma upsert_update:
  assumes cs: "budget_constraints s" and v: "budget_form_is_valid s u f"
      and e: "budget_rows_for s u (f_category f) ((f_month f)\<lparr>dday := 1\<rparr>) = [b]"
  shows "budget_constraints (budget_list_post s u f)
       \<and> budget_rows_for (budget_list_post s u f) u (f_category f) ((f_month f)\<lparr>dday := 1\<rparr>)
           = [b\<lparr>bamount := f_amount f\<rparr>]
       \<and> length (budgets (budget_list_post s u f)) = length (budgets s)"
proof -
  let ?m = "(f_month f)\<lparr>dday := 1\<rparr>"
  let ?upd = "\<lambda>x. if bid x = bid b then x\<lparr>bamount := f_amount f\<rparr> else x"
  have p: "budget_list_post s u f = s\<lparr>budgets := map ?upd (budgets s)\<rparr>"
    using v e by (simp add: budget_list_post_def clean_month_def)
  have "b \<in> set (budget_rows_for s u (f_category f) ?m)"
    by (simp add: e)
  then have bin: "b \<in> set (budgets s)" "buser b = u" "bcategory b = f_category f" "bmonth b = ?m"
    by (simp_all add: budget_rows_for_def)
  have ids: "\<forall>x\<in>set (budgets s). bid x = bid b \<longrightarrow> x = b"
    using cs bin(1) by (auto simp: budget_constraints_def distinct_map inj_on_def)
  have key: "buser (?upd x) = buser x \<and> bcategory (?upd x) = bcategory x \<and> bmonth (?upd x) = bmonth x
      \<and> bid (?upd x) = bid x" for x
    by simp
  have sel: "budgets (s\<lparr>budgets := map ?upd (budgets s)\<rparr>) = map ?upd (budgets s)" by simp
  have bidmap: "map bid (map ?upd (budgets s)) = map bid (budgets s)"
    by (rule map_bid_update)
  have "budget_rows_for (s\<lparr>budgets := map ?upd (budgets s)\<rparr>) u (f_category f) ?m
      = map ?upd (budget_rows_for s u (f_category f) ?m)"
    unfolding budget_rows_for_def sel by (rule filter_map_same) simp
  then have rows: "budget_rows_for (s\<lparr>budgets := map ?upd (budgets s)\<rparr>) u (f_category f) ?m
      = [b\<lparr>bamount := f_amount f\<rparr>]"
    by (simp add: e)
  have u0: "\<forall>x\<in>set (budgets s). \<forall>y\<in>set (budgets s).
       buser x = buser y \<and> bcategory x = bcategory y \<and> bmonth x = bmonth y \<longrightarrow> x = y"
    using cs by (simp add: budget_constraints_def)
  have d0: "distinct (map bid (budgets s))"
    using cs by (simp add: budget_constraints_def)
  have "budget_constraints (s\<lparr>budgets := map ?upd (budgets s)\<rparr>)"
    unfolding budget_constraints_def
  proof
    show "distinct (map bid (budgets (s\<lparr>budgets := map ?upd (budgets s)\<rparr>)))"
      using d0 unfolding sel bidmap .
    show "\<forall>x\<in>set (budgets (s\<lparr>budgets := map ?upd (budgets s)\<rparr>)).
       \<forall>y\<in>set (budgets (s\<lparr>budgets := map ?upd (budgets s)\<rparr>)).
       buser x = buser y \<and> bcategory x = bcategory y \<and> bmonth x = bmonth y \<longrightarrow> x = y"
      unfolding sel by (rule budget_key_map[OF u0]) simp
  qed
  then show ?thesis using rows by (simp add: p)
qed


lemma upsert_key:
  assumes cs: "budget_constraints s" and v: "budget_form_is_valid s u f"
  shows "budget_constraints (budget_list_post s u f)
       \<and> (\<exists>b. budget_rows_for (budget_list_post s u f) u (f_category f) ((f_month f)\<lparr>dday := 1\<rparr>) = [b]
              \<and> bamount b = f_amount f)"
proof -
  from budget_constraints_rows[OF cs, of u "f_category f" "(f_month f)\<lparr>dday := 1\<rparr>"]
  show ?thesis
  proof
    assume "budget_rows_for s u (f_category f) ((f_month f)\<lparr>dday := 1\<rparr>) = []"
    from upsert_insert[OF cs v this] show ?thesis by simp
  next
    assume "\<exists>b. budget_rows_for s u (f_category f) ((f_month f)\<lparr>dday := 1\<rparr>) = [b]"
    then obtain b where "budget_rows_for s u (f_category f) ((f_month f)\<lparr>dday := 1\<rparr>) = [b]" ..
    from upsert_update[OF cs v this] show ?thesis by simp
  qed
qed

lemma upsert_written_day:
  assumes cs: "budget_constraints s"
  shows "\<forall>b\<in>set (budgets (budget_list_post s u f)). b \<in> set (budgets s) \<or> dday (bmonth b) = 1"
proof (cases "budget_form_is_valid s u f")
  case False
  then show ?thesis by (simp add: budget_list_post_def)
next
  case True
  let ?m = "(f_month f)\<lparr>dday := 1\<rparr>"
  from budget_constraints_rows[OF cs, of u "f_category f" ?m]
  show ?thesis
  proof
    assume e: "budget_rows_for s u (f_category f) ?m = []"
    show ?thesis using True e by (simp add: budget_list_post_def clean_month_def)
  next
    assume "\<exists>b. budget_rows_for s u (f_category f) ?m = [b]"
    then obtain b0 where e: "budget_rows_for s u (f_category f) ?m = [b0]" ..
    have "b0 \<in> set (budget_rows_for s u (f_category f) ?m)" by (simp add: e)
    then have b0: "b0 \<in> set (budgets s)" "bmonth b0 = ?m" by (simp_all add: budget_rows_for_def)
    have ids: "x = b0" if "x \<in> set (budgets s)" "bid x = bid b0" for x
      using cs b0(1) that by (auto simp: budget_constraints_def distinct_map inj_on_def)
    have p: "budget_list_post s u f
        = s\<lparr>budgets := map (\<lambda>x. if bid x = bid b0 then x\<lparr>bamount := f_amount f\<rparr> else x) (budgets s)\<rparr>"
      using True e by (simp add: budget_list_post_def clean_month_def)
    show ?thesis
    proof
      fix b assume "b \<in> set (budgets (budget_list_post s u f))"
      then obtain x where x: "x \<in> set (budgets s)"
          "b = (if bid x = bid b0 then x\<lparr>bamount := f_amount f\<rparr> else x)"
        unfolding p by (auto simp: image_iff)
      show "b \<in> set (budgets s) \<or> dday (bmonth b) = 1"
      proof (cases "bid x = bid b0")
        case True
        then have "x = b0" using ids x(1) by simp
        then show ?thesis using x(2) True b0(2) by simp
      next
        case False
        then show ?thesis using x by simp
      qed
    qed
  qed
qed

lemma post_categories: "categories (budget_list_post s u f) = categories s"
  by (simp add: budget_list_post_def clean_month_def split: list.splits)

text \<open>
  Claim C4. In a store that keeps the constraints of the budget table, two valid
  submissions of the budget form by one user for the same category and the same calendar
  month (whatever the days and the amounts) leave exactly one budget row for the key
  (user, category, first day of that month), holding the amount of the second
  submission; the constraints still hold; every row the two submissions wrote or changed
  has day 1 as its month; and \<open>clean_month\<close> maps a date to the first day of its month.
\<close>

theorem budget_upsert:
  assumes cs: "budget_constraints s"
      and v1: "budget_form_is_valid s u f1" and v2: "budget_form_is_valid s u f2"
      and kc: "f_category f1 = f_category f2"
      and ky: "dyear (f_month f1) = dyear (f_month f2)"
      and km: "dmonth (f_month f1) = dmonth (f_month f2)"
  shows "(\<exists>b. budget_rows_for (budget_list_post (budget_list_post s u f1) u f2) u (f_category f1)
               \<lparr>dyear = dyear (f_month f1), dmonth = dmonth (f_month f1), dday = 1\<rparr> = [b]
            \<and> bamount b = f_amount f2)
       \<and> budget_constraints (budget_list_post (budget_list_post s u f1) u f2)
       \<and> (\<forall>b\<in>set (budgets (budget_list_post (budget_list_post s u f1) u f2)).
             b \<in> set (budgets s) \<or> dday (bmonth b) = 1)
       \<and> clean_month (Some (f_month f1))
            = Some \<lparr>dyear = dyear (f_month f1), dmonth = dmonth (f_month f1), dday = 1\<rparr>"
proof -
  let ?s1 = "budget_list_post s u f1"
  let ?s2 = "budget_list_post ?s1 u f2"
  have m: "(f_month f2)\<lparr>dday := 1\<rparr> = \<lparr>dyear = dyear (f_month f1), dmonth = dmonth (f_month f1), dday = 1\<rparr>"
    using ky km by simp
  have cs1: "budget_constraints ?s1" using upsert_key[OF cs v1] by simp
  have v2': "budget_form_is_valid ?s1 u f2"
    using v2 by (simp add: budget_form_is_valid_def post_categories)
  from upsert_key[OF cs1 v2'] have
    cs2: "budget_constraints ?s2" and
    r: "\<exists>b. budget_rows_for ?s2 u (f_category f1)
               \<lparr>dyear = dyear (f_month f1), dmonth = dmonth (f_month f1), dday = 1\<rparr> = [b]
            \<and> bamount b = f_amount f2"
    unfolding m kc by simp_all
  have w: "\<forall>b\<in>set (budgets ?s2). b \<in> set (budgets s) \<or> dday (bmonth b) = 1"
    using upsert_written_day[OF cs, of u f1] upsert_written_day[OF cs1, of u f2] by blast
  have c: "clean_month (Some (f_month f1))
            = Some \<lparr>dyear = dyear (f_month f1), dmonth = dmonth (f_month f1), dday = 1\<rparr>"
    by (simp add: clean_month_def)
  show ?thesis using r cs2 w c by blast
qed


text \<open>
  The theorem on the store of \<open>test_import_csv\<close>: budgets of 3000 and then 3500 for the
  food category, submitted for 2025-10-15 and 2025-10-20, leave the single row of 3500
  for 2025-10-01 (the month of \<open>test_budget_form_sets_first_day_of_month\<close>).
\<close>

theorem budget_upsert_witness:
  "budget_constraints test_store_imported
   \<and> budget_form_is_valid test_store_imported 1
        \<lparr>f_category = 2, f_amount = 3000, f_month = \<lparr>dyear = 2025, dmonth = 10, dday = 15\<rparr>\<rparr>
   \<and> budget_form_is_valid test_store_imported 1
        \<lparr>f_category = 2, f_amount = 3500, f_month = \<lparr>dyear = 2025, dmonth = 10, dday = 20\<rparr>\<rparr>
   \<and> budgets (budget_list_post (budget_list_post test_store_imported 1
          \<lparr>f_category = 2, f_amount = 3000, f_month = \<lparr>dyear = 2025, dmonth = 10, dday = 15\<rparr>\<rparr>) 1
          \<lparr>f_category = 2, f_amount = 3500, f_month = \<lparr>dyear = 2025, dmonth = 10, dday = 20\<rparr>\<rparr>)
       = [\<lparr>bid = 1, buser = 1, bcategory = 2, bamount = 3500,
           bmonth = \<lparr>dyear = 2025, dmonth = 10, dday = 1\<rparr>\<rparr>]
   \<and> clean_month (Some \<lparr>dyear = 2025, dmonth = 10, dday = 15\<rparr>)
       = Some \<lparr>dyear = 2025, dmonth = 10, dday = 1\<rparr>"
proof -
  let ?f1 = "\<lparr>f_category = 2, f_amount = 3000, f_month = \<lparr>dyear = 2025, dmonth = 10, dday = 15\<rparr>\<rparr>"
  let ?f2 = "\<lparr>f_category = 2, f_amount = 3500, f_month = \<lparr>dyear = 2025, dmonth = 10, dday = 20\<rparr>\<rparr>"
  have cs: "budget_constraints test_store_imported"
    by (simp add: budget_constraints_def test_store_imported_def)
  have v1: "budget_form_is_valid test_store_imported 1 ?f1"
    by (simp add: budget_form_is_valid_def test_store_imported_def)
  have v2: "budget_form_is_valid test_store_imported 1 ?f2"
    by (simp add: budget_form_is_valid_def test_store_imported_def)
  have s1: "budget_list_post test_store_imported 1 ?f1
      = test_store_imported\<lparr>budgets := [\<lparr>bid = 1, buser = 1, bcategory = 2, bamount = 3000,
           bmonth = \<lparr>dyear = 2025, dmonth = 10, dday = 1\<rparr>\<rparr>]\<rparr>"
    by (simp add: budget_list_post_def budget_form_is_valid_def test_store_imported_def
        clean_month_def budget_rows_for_def fresh_id_def)
  have s2: "budgets (budget_list_post (test_store_imported\<lparr>budgets :=
          [\<lparr>bid = 1, buser = 1, bcategory = 2, bamount = 3000,
            bmonth = \<lparr>dyear = 2025, dmonth = 10, dday = 1\<rparr>\<rparr>]\<rparr>) 1 ?f2)
      = [\<lparr>bid = 1, buser = 1, bcategory = 2, bamount = 3500,
           bmonth = \<lparr>dyear = 2025, dmonth = 10, dday = 1\<rparr>\<rparr>]"
    by (simp add: budget_list_post_def budget_form_is_valid_def test_store_imported_def
        clean_month_def budget_rows_for_def)
  have c: "clean_month (Some \<lparr>dyear = 2025, dmonth = 10, dday = 15\<rparr>)
       = Some \<lparr>dyear = 2025, dmonth = 10, dday = 1\<rparr>"
    using budget_upsert[OF cs v1 v2] by simp
  show ?thesis
    using cs v1 v2 c s2 unfolding s1 by blast
qed

section \<open>Round trip of export and import\<close>
































end
